theory Spec2Isabelle
  imports Main "HOL-Library.Sublist"
begin

section \<open>Python values, exceptions and conversation turns\<close>

text \<open>
  The exceptions that the modelled code raises or catches. A raise is the \<open>Inl\<close> branch
  of a result of type \<open>exn + 'a\<close>. \<open>RateLimitError\<close> and \<open>APIConnectionError\<close> are the two
  classes of \<^verbatim>\<open>CLAUDE_RETRY_ERROR_TYPES\<close>; \<open>NameError\<close> and \<open>AttributeError\<close> carry the name
  that is not bound;
  \<open>RetryError\<close> is tenacity's wrapper around the last failed attempt.
\<close>

datatype exn =
    RateLimitError
  | APIConnectionError
  | ValueError string
  | NameError string
  | RuntimeError string
  | JSONDecodeError
  | TypeError
  | IndexError
  | AttributeError string
  | RetryError exn
  | OtherError string

text \<open>
  A conversation turn is a Python dict; \<^verbatim>\<open>message.get(k)\<close> is the lookup of the map,
  with \<open>None\<close> for Python's \<^verbatim>\<open>None\<close>.
\<close>

type_synonym message = "string \<rightharpoonup> string"

text \<open>Truthiness of an optional text: \<^verbatim>\<open>None\<close> and the empty string are falsy.\<close>

definition truthy :: "string option \<Rightarrow> bool" where
  "truthy x = (case x of None \<Rightarrow> False | Some s \<Rightarrow> s \<noteq> [])"

section \<open>Message normalisation\<close>

text \<open>
  The loop that \<^verbatim>\<open>_execute_llm\<close>, \<^verbatim>\<open>generate\<close> and \<^verbatim>\<open>agenerate\<close> all contain:
  \<^verbatim>\<open>
  system_message = None
  filtered_messages = []
  for message in messages:
      if message.get('role') == 'system':
          system_message = message.get('content')
      else:
          filtered_messages.append(message)
  \<close>
  The two mutable variables are the accumulators of the recursion.
\<close>

fun extract_system_message ::
  "string option \<Rightarrow> message list \<Rightarrow> message list \<Rightarrow> string option \<times> message list" where
  "extract_system_message system_message filtered_messages [] =
     (system_message, filtered_messages)"
| "extract_system_message system_message filtered_messages (message # rest) =
     (if message ''role'' = Some ''system''
      then extract_system_message (message ''content'') filtered_messages rest
      else extract_system_message system_message (filtered_messages @ [message]) rest)"

section \<open>The remote client and the observable effects\<close>

text \<open>
  Keyword arguments passed on to the SDK: a text (the system instruction) or a header
  dictionary.
\<close>

datatype kwarg = Text string | Headers "(string \<times> string) list"

type_synonym kwargs = "string \<rightharpoonup> kwarg"

record request =
  req_model :: string
  req_messages :: "message list"
  req_stream :: "bool option"
  req_kwargs :: kwargs

text \<open>
  The SDK client is an oracle. Its answer may depend on how many requests were sent
  before (the first argument), so that a retry can meet a different outcome.
  \<open>messages_stream\<close> gives the text deltas of \<^verbatim>\<open>stream.text_stream\<close> and the exception
  that ends the stream, if any; \<open>messages_create\<close> gives the texts of the content blocks
  of the response, or raises.
\<close>

record client =
  messages_stream :: "nat \<Rightarrow> request \<Rightarrow> string list \<times> exn option"
  messages_create :: "nat \<Rightarrow> request \<Rightarrow> exn + string list"

text \<open>
  Everything a call does besides returning: the requests sent, the tokens handed to
  callbacks (callback index and token), the attempts started and the waits taken by the
  retry loop (the number of the attempt that preceded the wait), and the messages given
  to the error reporter or logger.
\<close>

record world =
  requests :: "request list"
  tokens :: "(nat \<times> string) list"
  attempts :: nat
  sleeps :: "int list"
  reported :: "string list"

datatype messages_arg = MsgStr string | MsgList "message list"

text \<open>
  The state of an instance. The two clients are the attributes \<^verbatim>\<open>_sync_client\<close> and
  \<^verbatim>\<open>_async_client\<close>: the constructor of \<^verbatim>\<open>ChatClaude\<close> creates them, the constructor of
  \<^verbatim>\<open>Claude\<close> does not (they are then present only after \<^verbatim>\<open>set_clients\<close>), and reading a
  missing one raises \<^verbatim>\<open>AttributeError\<close>.
\<close>

record llm =
  model :: "string option"
  max_retries :: int
  retry_error_types :: "exn \<Rightarrow> bool"
  sync_client :: "client option"
  async_client :: "client option"

text \<open>
  \<^verbatim>\<open>CLAUDE_RETRY_ERROR_TYPES = (RateLimitError, APIConnectionError)\<close>: a tuple of exception
  classes is represented by its \<^verbatim>\<open>isinstance\<close> test.
\<close>

definition CLAUDE_RETRY_ERROR_TYPES :: "exn \<Rightarrow> bool" where
  "CLAUDE_RETRY_ERROR_TYPES e = (e = RateLimitError \<or> e = APIConnectionError)"

definition MODEL_REQUIRED_MSG :: string where
  "MODEL_REQUIRED_MSG = ''model is required''"

section \<open>The retry loop of tenacity\<close>

text \<open>
  \<^verbatim>\<open>for attempt in Retrying(stop=stop_after_attempt(n), wait=..., reraise=r,
  retry=retry_if_exception_type(types)): with attempt: return body()\<close>.
  Attempts are numbered from 1. A successful body returns from the enclosing function.
  After a failed attempt the library first asks \<open>retry\<close>: an exception outside \<open>types\<close>
  is raised again as it is. Then it asks \<open>stop\<close> (\<open>attempt_number >= n\<close>): when the
  budget is used up it raises the last exception itself if \<open>reraise\<close> is set, and
  \<open>RetryError\<close> otherwise. Otherwise it sleeps and starts the next attempt.
\<close>

function Retrying ::
  "int \<Rightarrow> bool \<Rightarrow> (exn \<Rightarrow> bool) \<Rightarrow> (world \<Rightarrow> (exn + string) \<times> world) \<Rightarrow> int \<Rightarrow> world
   \<Rightarrow> (exn + string) \<times> world" where
  "Retrying stop_after_attempt reraise retry body attempt_number w =
     (case body (w\<lparr>attempts := attempts w + 1\<rparr>) of
        (Inr v, w') \<Rightarrow> (Inr v, w')
      | (Inl e, w') \<Rightarrow>
          if \<not> retry e then (Inl e, w')
          else if attempt_number \<ge> stop_after_attempt
          then (if reraise then (Inl e, w') else (Inl (RetryError e), w'))
          else Retrying stop_after_attempt reraise retry body (attempt_number + 1)
                 (w'\<lparr>sleeps := sleeps w' @ [attempt_number]\<rparr>))"
  by pat_completeness auto
termination
  by (relation "measure (\<lambda>(s, r, t, b, n, w). nat (s - n))") auto

declare Retrying.simps [simp del]

section \<open>ChatClaude (query/llm/claude/chat\_claude.py)\<close>

text \<open>
  In \<^verbatim>\<open>_generate\<close> and \<^verbatim>\<open>_agenerate\<close> the argument of \<^verbatim>\<open>callback.on_llm_new_token(delta)\<close>
  is the name \<^verbatim>\<open>delta\<close>. No assignment, parameter or import binds it in either module
  (the loop variable is \<^verbatim>\<open>text\<close>), so evaluating it raises \<^verbatim>\<open>NameError\<close>.
\<close>

definition delta :: "exn + string" where
  "delta = Inl (NameError ''delta'')"

text \<open>\<^verbatim>\<open>for callback in callbacks: callback.on_llm_new_token(delta)\<close>\<close>

fun notify_callbacks :: "nat list \<Rightarrow> world \<Rightarrow> (exn + unit) \<times> world" where
  "notify_callbacks [] w = (Inr (), w)"
| "notify_callbacks (callback # rest) w =
     (case delta of
        Inl e \<Rightarrow> (Inl e, w)
      | Inr d \<Rightarrow> notify_callbacks rest (w\<lparr>tokens := tokens w @ [(callback, d)]\<rparr>))"

text \<open>
  \<^verbatim>\<open>for text in stream.text_stream: full_response += text; if callbacks: ...\<close>
  followed by \<^verbatim>\<open>return full_response\<close>. \<open>err\<close> is the exception that ends the stream.
\<close>

fun text_stream_loop ::
  "nat list option \<Rightarrow> string \<Rightarrow> string list \<Rightarrow> exn option \<Rightarrow> world \<Rightarrow> (exn + string) \<times> world" where
  "text_stream_loop callbacks full_response [] err w =
     (case err of None \<Rightarrow> (Inr full_response, w) | Some e \<Rightarrow> (Inl e, w))"
| "text_stream_loop callbacks full_response (text # rest) err w =
     (let full_response' = full_response @ text in
      case callbacks of
        None \<Rightarrow> text_stream_loop callbacks full_response' rest err w
      | Some cbs \<Rightarrow>
          if cbs = [] then text_stream_loop callbacks full_response' rest err w
          else (case notify_callbacks cbs w of
                  (Inl e, w') \<Rightarrow> (Inl e, w')
                | (Inr u, w') \<Rightarrow> text_stream_loop callbacks full_response' rest err w'))"

text \<open>\<^verbatim>\<open>response.content[0].text\<close>: an empty content list raises \<^verbatim>\<open>IndexError\<close>.\<close>

definition first_content_text :: "string list \<Rightarrow> exn + string" where
  "first_content_text content = (case content of [] \<Rightarrow> Inl IndexError | t # _ \<Rightarrow> Inr t)"

text \<open>
  The body shared by \<^verbatim>\<open>_generate\<close> (on the sync client) and \<^verbatim>\<open>_agenerate\<close> (on the async
  client) once the model name is known: the two differ only in the client they use and in
  awaiting it.
\<close>

definition send_request ::
  "client \<Rightarrow> string \<Rightarrow> message list \<Rightarrow> bool \<Rightarrow> nat list option \<Rightarrow> kwargs \<Rightarrow> world
   \<Rightarrow> (exn + string) \<times> world" where
  "send_request c m messages streaming callbacks kw w =
     (if streaming then
        (let req = \<lparr>req_model = m, req_messages = messages, req_stream = None, req_kwargs = kw\<rparr>;
             w1 = w\<lparr>requests := requests w @ [req]\<rparr>
         in case messages_stream c (length (requests w)) req of
              (deltas, err) \<Rightarrow> text_stream_loop callbacks [] deltas err w1)
      else
        (let req = \<lparr>req_model = m, req_messages = messages, req_stream = Some streaming,
                    req_kwargs = kw\<rparr>;
             w1 = w\<lparr>requests := requests w @ [req]\<rparr>
         in case messages_create c (length (requests w)) req of
              Inl e \<Rightarrow> (Inl e, w1)
            | Inr content \<Rightarrow> (first_content_text content, w1)))"

text \<open>\<^verbatim>\<open>ChatClaude._generate\<close>: \<^verbatim>\<open>if not model: raise ValueError(_MODEL_REQUIRED_MSG)\<close>.\<close>

definition ChatClaude_generate_impl ::
  "llm \<Rightarrow> message list \<Rightarrow> bool \<Rightarrow> nat list option \<Rightarrow> kwargs \<Rightarrow> world \<Rightarrow> (exn + string) \<times> world" where
  "ChatClaude_generate_impl self messages streaming callbacks kw w =
     (if \<not> truthy (model self) then (Inl (ValueError MODEL_REQUIRED_MSG), w)
      else case sync_client self of
             None \<Rightarrow> (Inl (AttributeError ''_sync_client''), w)
           | Some c \<Rightarrow> send_request c (the (model self)) messages streaming callbacks kw w)"

text \<open>\<^verbatim>\<open>ChatClaude._agenerate\<close>\<close>

definition ChatClaude_agenerate_impl ::
  "llm \<Rightarrow> message list \<Rightarrow> bool \<Rightarrow> nat list option \<Rightarrow> kwargs \<Rightarrow> world \<Rightarrow> (exn + string) \<times> world" where
  "ChatClaude_agenerate_impl self messages streaming callbacks kw w =
     (if \<not> truthy (model self) then (Inl (ValueError MODEL_REQUIRED_MSG), w)
      else case async_client self of
             None \<Rightarrow> (Inl (AttributeError ''_async_client''), w)
           | Some c \<Rightarrow> send_request c (the (model self)) messages streaming callbacks kw w)"

text \<open>
  The head of \<^verbatim>\<open>generate\<close> and \<^verbatim>\<open>agenerate\<close>: the normalisation runs only when
  \<^verbatim>\<open>messages\<close> is not a \<^verbatim>\<open>str\<close>, and \<^verbatim>\<open>messages = filtered_messages\<close> follows in both
  cases.
\<close>

definition normalize_messages :: "messages_arg \<Rightarrow> string option \<times> message list" where
  "normalize_messages messages =
     (case messages of
        MsgStr s \<Rightarrow> (None, [])
      | MsgList ms \<Rightarrow> extract_system_message None [] ms)"

text \<open>\<^verbatim>\<open>if system_message: kwargs['system'] = system_message\<close>\<close>

definition add_system :: "string option \<Rightarrow> kwargs \<Rightarrow> kwargs" where
  "add_system system_message kw =
     (if truthy system_message then kw(''system'' \<mapsto> Text (the system_message)) else kw)"

definition extra_headers :: kwarg where
  "extra_headers = Headers [(''anthropic-beta'', ''max-tokens-3-5-sonnet-2024-07-15'')]"

text \<open>
  \<^verbatim>\<open>except RetryError as e: self._reporter.error(...); return ""\<close>: the handler around
  the retry loop. Every other exception leaves the function.
\<close>

definition on_retry_error :: "string \<Rightarrow> (exn + string) \<times> world \<Rightarrow> (exn + string) \<times> world" where
  "on_retry_error msg r =
     (case r of
        (Inl (RetryError e), w) \<Rightarrow> (Inr [], w\<lparr>reported := reported w @ [msg]\<rparr>)
      | _ \<Rightarrow> r)"

text \<open>\<^verbatim>\<open>ChatClaude.generate\<close>\<close>

definition ChatClaude_generate ::
  "llm \<Rightarrow> messages_arg \<Rightarrow> bool \<Rightarrow> nat list option \<Rightarrow> kwargs \<Rightarrow> world \<Rightarrow> (exn + string) \<times> world" where
  "ChatClaude_generate self messages streaming callbacks kw w =
     (case normalize_messages messages of
        (system_message, filtered_messages) \<Rightarrow>
          (let kw1 = kw(''extra_headers'' \<mapsto> extra_headers);
               kw2 = add_system system_message kw1
           in on_retry_error ''Error at generate()''
                (Retrying (max_retries self) True (retry_error_types self)
                   (ChatClaude_generate_impl self filtered_messages streaming callbacks kw2)
                   1 w)))"

text \<open>\<^verbatim>\<open>ChatClaude.agenerate\<close>\<close>

definition ChatClaude_agenerate ::
  "llm \<Rightarrow> messages_arg \<Rightarrow> bool \<Rightarrow> nat list option \<Rightarrow> kwargs \<Rightarrow> world \<Rightarrow> (exn + string) \<times> world" where
  "ChatClaude_agenerate self messages streaming callbacks kw w =
     (case normalize_messages messages of
        (system_message, filtered_messages) \<Rightarrow>
          (let kw1 = kw(''extra_headers'' \<mapsto> extra_headers);
               kw2 = add_system system_message kw1
           in on_retry_error ''Error at agenerate()''
                (Retrying (max_retries self) True (retry_error_types self)
                   (ChatClaude_agenerate_impl self filtered_messages streaming callbacks kw2)
                   1 w)))"

section \<open>Claude (query/llm/claude/claude.py)\<close>

text \<open>
  \<^verbatim>\<open>Claude._generate\<close> and \<^verbatim>\<open>Claude._agenerate\<close> are the same text as in ChatClaude, but
  claude.py neither defines nor imports \<^verbatim>\<open>_MODEL_REQUIRED_MSG\<close>: with a missing model
  the \<^verbatim>\<open>raise\<close> statement fails on that name.
\<close>

definition Claude_generate_impl ::
  "llm \<Rightarrow> message list \<Rightarrow> bool \<Rightarrow> nat list option \<Rightarrow> kwargs \<Rightarrow> world \<Rightarrow> (exn + string) \<times> world" where
  "Claude_generate_impl self messages streaming callbacks kw w =
     (if \<not> truthy (model self) then (Inl (NameError ''_MODEL_REQUIRED_MSG''), w)
      else case sync_client self of
             None \<Rightarrow> (Inl (AttributeError ''_sync_client''), w)
           | Some c \<Rightarrow> send_request c (the (model self)) messages streaming callbacks kw w)"

definition Claude_agenerate_impl ::
  "llm \<Rightarrow> message list \<Rightarrow> bool \<Rightarrow> nat list option \<Rightarrow> kwargs \<Rightarrow> world \<Rightarrow> (exn + string) \<times> world" where
  "Claude_agenerate_impl self messages streaming callbacks kw w =
     (if \<not> truthy (model self) then (Inl (NameError ''_MODEL_REQUIRED_MSG''), w)
      else case async_client self of
             None \<Rightarrow> (Inl (AttributeError ''_async_client''), w)
           | Some c \<Rightarrow> send_request c (the (model self)) messages streaming callbacks kw w)"

text \<open>\<^verbatim>\<open>Claude.generate\<close>: no extra header; the handler logs instead of reporting.\<close>

definition Claude_generate ::
  "llm \<Rightarrow> messages_arg \<Rightarrow> bool \<Rightarrow> nat list option \<Rightarrow> kwargs \<Rightarrow> world \<Rightarrow> (exn + string) \<times> world" where
  "Claude_generate self messages streaming callbacks kw w =
     (case normalize_messages messages of
        (system_message, filtered_messages) \<Rightarrow>
          (let kw1 = add_system system_message kw
           in on_retry_error ''RetryError at generate(): %s''
                (Retrying (max_retries self) True (retry_error_types self)
                   (Claude_generate_impl self filtered_messages streaming callbacks kw1)
                   1 w)))"

text \<open>\<^verbatim>\<open>Claude.agenerate\<close>\<close>

definition Claude_agenerate ::
  "llm \<Rightarrow> messages_arg \<Rightarrow> bool \<Rightarrow> nat list option \<Rightarrow> kwargs \<Rightarrow> world \<Rightarrow> (exn + string) \<times> world" where
  "Claude_agenerate self messages streaming callbacks kw w =
     (case normalize_messages messages of
        (system_message, filtered_messages) \<Rightarrow>
          (let kw1 = add_system system_message kw
           in on_retry_error ''Error at agenerate()''
                (Retrying (max_retries self) True (retry_error_types self)
                   (Claude_agenerate_impl self filtered_messages streaming callbacks kw1)
                   1 w)))"

section \<open>Python text operations\<close>

text \<open>
  Text is a list of characters; the characters that a string literal cannot hold are
  named here.
\<close>

abbreviation BACKSLASH :: char where "BACKSLASH \<equiv> CHR 0x5C"
abbreviation NEWLINE :: char where "NEWLINE \<equiv> CHR 0x0A"
abbreviation CR :: char where "CR \<equiv> CHR 0x0D"
abbreviation TAB :: char where "TAB \<equiv> CHR 0x09"
abbreviation QUOTE :: char where "QUOTE \<equiv> CHR 0x22"

text \<open>
  \<^verbatim>\<open>str.isspace\<close> of one character, which is also the class \<^verbatim>\<open>\s\<close> of \<^verbatim>\<open>re\<close> on \<^verbatim>\<open>str\<close>
  patterns: tab, line feed, vertical tab, form feed, carriage return, the four
  separators 0x1C to 0x1F, space, 0x85 and the no-break space 0xA0.
\<close>

definition isspace :: "char \<Rightarrow> bool" where
  "isspace c = (c \<in> set [CHR 0x09, CHR 0x0A, CHR 0x0B, CHR 0x0C, CHR 0x0D, CHR 0x1C, CHR 0x1D,
                          CHR 0x1E, CHR 0x1F, CHR 0x20, CHR 0x85, CHR 0xA0])"

text \<open>\<^verbatim>\<open>s.strip()\<close>\<close>

definition strip :: "string \<Rightarrow> string" where
  "strip s = rev (dropWhile isspace (rev (dropWhile isspace s)))"

text \<open>
  \<^verbatim>\<open>s.replace(old, new)\<close>: the occurrences of \<open>old\<close> are replaced from left to right
  without overlap; an empty \<open>old\<close> matches before every character and at the end.
\<close>

function replace :: "string \<Rightarrow> string \<Rightarrow> string \<Rightarrow> string" where
  "replace old new [] = (if old = [] then new else [])"
| "replace old new (c # s) =
     (if old = [] then new @ c # replace old new s
      else if prefix old (c # s) then new @ replace old new (drop (length old) (c # s))
      else c # replace old new s)"
  by pat_completeness auto
termination
  by (relation "measure (\<lambda>(old, new, s). length s)") auto

text \<open>\<^verbatim>\<open>sep.join(parts)\<close>\<close>

fun join :: "string \<Rightarrow> string list \<Rightarrow> string" where
  "join sep [] = []"
| "join sep [x] = x"
| "join sep (x # y # ys) = x @ sep @ join sep (y # ys)"

text \<open>\<^verbatim>\<open>str(n)\<close> for an integer: decimal digits, with a minus sign when negative.\<close>

definition digit_char :: "nat \<Rightarrow> char" where
  "digit_char d = ''0123456789'' ! d"

function str_nat :: "nat \<Rightarrow> string" where
  "str_nat n = (if n < 10 then [digit_char n] else str_nat (n div 10) @ [digit_char (n mod 10)])"
  by pat_completeness auto
termination
  by (relation "measure id") auto

declare str_nat.simps [simp del]

definition str_int :: "int \<Rightarrow> string" where
  "str_int i = (if i < 0 then CHR ''-'' # str_nat (nat (- i)) else str_nat (nat i))"

section \<open>Python values and the json module\<close>

text \<open>
  The values that \<^verbatim>\<open>json.loads\<close> builds. A decoded string is a list of code points,
  since an escape \<^verbatim>\<open>\uXXXX\<close> can denote any of them. A dict keeps its keys in insertion
  order. A float is kept as the text it was read from: its numeric value is not needed,
  and the text that \<^verbatim>\<open>json.dumps\<close> writes for it is a parameter \<open>float_repr\<close> of the
  encoder.
\<close>

datatype pyval =
    PNone
  | PBool bool
  | PInt int
  | PFloat string
  | PStr "nat list"
  | PList "pyval list"
  | PDict "(nat list \<times> pyval) list"

text \<open>The code points of a text.\<close>

abbreviation ustr :: "string \<Rightarrow> nat list" where
  "ustr s \<equiv> map of_char s"

text \<open>\<^verbatim>\<open>d[key] = value\<close>: a key already present keeps its place and takes the new value.\<close>

fun dict_set :: "('k \<times> 'v) list \<Rightarrow> 'k \<Rightarrow> 'v \<Rightarrow> ('k \<times> 'v) list" where
  "dict_set [] key v = [(key, v)]"
| "dict_set (p # ps) key v = (if fst p = key then (key, v) # ps else p # dict_set ps key v)"

text \<open>The whitespace of the decoder: \<^verbatim>\<open>WHITESPACE = re.compile(r'[ \t\n\r]*')\<close>.\<close>

definition json_ws :: "char \<Rightarrow> bool" where
  "json_ws c = (c = CHR '' '' \<or> c = TAB \<or> c = NEWLINE \<or> c = CR)"

definition skip_ws :: "string \<Rightarrow> string" where
  "skip_ws s = dropWhile json_ws s"

definition is_digit :: "char \<Rightarrow> bool" where
  "is_digit c = (c \<in> set ''0123456789'')"

definition hexval :: "char \<Rightarrow> nat option" where
  "hexval c =
     (if c \<in> set ''0123456789'' then Some (of_char c - 48)
      else if c \<in> set ''abcdef'' then Some (of_char c - 87)
      else if c \<in> set ''ABCDEF'' then Some (of_char c - 55)
      else None)"

text \<open>\<^verbatim>\<open>_decode_uXXXX\<close>: exactly four hexadecimal digits, read as a number.\<close>

definition decode_uXXXX :: "string \<Rightarrow> nat option" where
  "decode_uXXXX s =
     (case s of
        a # b # c # d # _ \<Rightarrow>
          (case (hexval a, hexval b, hexval c, hexval d) of
             (Some x, Some y, Some z, Some u) \<Rightarrow> Some (((x * 16 + y) * 16 + z) * 16 + u)
           | _ \<Rightarrow> None)
      | _ \<Rightarrow> None)"

text \<open>The table \<^verbatim>\<open>BACKSLASH\<close> of the decoder: the character after a backslash.\<close>

definition backslash_escape :: "char \<Rightarrow> nat option" where
  "backslash_escape e =
     (if e = QUOTE then Some 0x22
      else if e = BACKSLASH then Some 0x5C
      else if e = CHR ''/'' then Some 0x2F
      else if e = CHR ''b'' then Some 0x08
      else if e = CHR ''f'' then Some 0x0C
      else if e = CHR ''n'' then Some 0x0A
      else if e = CHR ''r'' then Some 0x0D
      else if e = CHR ''t'' then Some 0x09
      else None)"

text \<open>
  \<^verbatim>\<open>scanstring(s, end, strict=True)\<close>, started after the opening quote: the decoded
  code points and the text after the closing quote. A control character, an unknown
  escape, a malformed \<^verbatim>\<open>\u\<close> escape and a missing closing quote are errors (\<open>None\<close>).
  A high surrogate followed by an escaped low surrogate is one code point.
\<close>

fun scanstring :: "string \<Rightarrow> (nat list \<times> string) option" where
  "scanstring [] = None"
| "scanstring (c # s) =
     (if c = QUOTE then Some ([], s)
      else if c = BACKSLASH then
        (case s of
           [] \<Rightarrow> None
         | e # t \<Rightarrow>
             if e = CHR ''u'' then
               (case decode_uXXXX t of
                  None \<Rightarrow> None
                | Some uni \<Rightarrow>
                    if 0xD800 \<le> uni \<and> uni \<le> 0xDBFF \<and> prefix [BACKSLASH, CHR ''u''] (drop 4 t) then
                      (case decode_uXXXX (drop 6 t) of
                         None \<Rightarrow> None
                       | Some uni2 \<Rightarrow>
                           if 0xDC00 \<le> uni2 \<and> uni2 \<le> 0xDFFF then
                             (case scanstring (drop 10 t) of
                                None \<Rightarrow> None
                              | Some (cs, r) \<Rightarrow>
                                  Some ((0x10000 + ((uni - 0xD800) * 1024 + (uni2 - 0xDC00))) # cs, r))
                           else
                             (case scanstring (drop 4 t) of
                                None \<Rightarrow> None
                              | Some (cs, r) \<Rightarrow> Some (uni # cs, r)))
                    else
                      (case scanstring (drop 4 t) of
                         None \<Rightarrow> None
                       | Some (cs, r) \<Rightarrow> Some (uni # cs, r)))
             else
               (case backslash_escape e of
                  None \<Rightarrow> None
                | Some ch \<Rightarrow>
                    (case scanstring t of
                       None \<Rightarrow> None
                     | Some (cs, r) \<Rightarrow> Some (ch # cs, r))))
      else if (of_char c :: nat) < 0x20 then None
      else
        (case scanstring s of
           None \<Rightarrow> None
         | Some (cs, r) \<Rightarrow> Some (of_char c # cs, r)))"

text \<open>The value of a run of decimal digits.\<close>

definition digits_value :: "string \<Rightarrow> int" where
  "digits_value ds = fold (\<lambda>c n. 10 * n + (of_char c - 48)) ds 0"

text \<open>
  \<^verbatim>\<open>NUMBER_RE = (-?(?:0|[1-9]\d*))(\.\d+)?([eE][-+]?\d+)?\<close> matched at the start of
  the text. Each optional group is taken when it can match, and then as long as it can.
  The three functions give the text of the integer part, of the fraction and of the
  exponent (empty when the group does not take part).
\<close>

definition number_int :: "string \<Rightarrow> string option" where
  "number_int s =
     (let sign = (if prefix ''-'' s then ''-'' else []);
          t = drop (length sign) s
      in case t of
           [] \<Rightarrow> None
         | d # u \<Rightarrow>
             if d = CHR ''0'' then Some (sign @ ''0'')
             else if is_digit d then Some (sign @ d # takeWhile is_digit u)
             else None)"

definition number_frac :: "string \<Rightarrow> string" where
  "number_frac s =
     (case s of
        c # d # u \<Rightarrow> if c = CHR ''.'' \<and> is_digit d then c # d # takeWhile is_digit u else []
      | _ \<Rightarrow> [])"

definition number_exp :: "string \<Rightarrow> string" where
  "number_exp s =
     (case s of
        [] \<Rightarrow> []
      | e # t \<Rightarrow>
          if e = CHR ''e'' \<or> e = CHR ''E'' then
            (let sign = (if prefix ''-'' t then ''-'' else if prefix ''+'' t then ''+'' else []);
                 u = drop (length sign) t
             in case u of
                  [] \<Rightarrow> []
                | d # v \<Rightarrow> if is_digit d then e # sign @ d # takeWhile is_digit v else [])
          else [])"

text \<open>
  \<^verbatim>\<open>match_number\<close> and the conversion that follows it in \<^verbatim>\<open>scan_once\<close>: a float when
  a fraction or an exponent is present, an \<^verbatim>\<open>int\<close> otherwise.
\<close>

definition match_number :: "string \<Rightarrow> (pyval \<times> string) option" where
  "match_number s =
     (case number_int s of
        None \<Rightarrow> None
      | Some integer \<Rightarrow>
          (let s1 = drop (length integer) s;
               frac = number_frac s1;
               s2 = drop (length frac) s1;
               exp = number_exp s2;
               s3 = drop (length exp) s2
           in if frac \<noteq> [] \<or> exp \<noteq> [] then Some (PFloat (integer @ frac @ exp), s3)
              else if prefix ''-'' integer then Some (PInt (- digits_value (tl integer)), s3)
              else Some (PInt (digits_value integer), s3)))"

text \<open>
  The branches of \<^verbatim>\<open>scan_once\<close> that do not recurse, in its order: the three literals,
  a number, and the three constants \<^verbatim>\<open>NaN\<close>, \<^verbatim>\<open>Infinity\<close>, \<^verbatim>\<open>-Infinity\<close>.
\<close>

definition scan_atom :: "string \<Rightarrow> (pyval \<times> string) option" where
  "scan_atom s =
     (if prefix ''null'' s then Some (PNone, drop 4 s)
      else if prefix ''true'' s then Some (PBool True, drop 4 s)
      else if prefix ''false'' s then Some (PBool False, drop 5 s)
      else case match_number s of
             Some r \<Rightarrow> Some r
           | None \<Rightarrow>
               if prefix ''NaN'' s then Some (PFloat ''NaN'', drop 3 s)
               else if prefix ''Infinity'' s then Some (PFloat ''Infinity'', drop 8 s)
               else if prefix ''-Infinity'' s then Some (PFloat ''-Infinity'', drop 9 s)
               else None)"

text \<open>
  \<^verbatim>\<open>scan_once\<close> with \<^verbatim>\<open>JSONArray\<close> and \<^verbatim>\<open>JSONObject\<close>. \<open>None\<close> stands for the
  \<^verbatim>\<open>StopIteration\<close> or \<^verbatim>\<open>JSONDecodeError\<close> that \<^verbatim>\<open>decode\<close> turns into
  \<^verbatim>\<open>JSONDecodeError\<close>. \<open>JSONArray_loop\<close> is the \<^verbatim>\<open>while\<close> loop of \<^verbatim>\<open>JSONArray\<close>, entered at
  the first character of an element; \<open>JSONObject_loop\<close> is the loop of \<^verbatim>\<open>JSONObject\<close>,
  entered after the opening quote of a key. The test \<open>length r < length s\<close> states that a
  value takes at least one character; it always holds (\<open>scan_once_consumes\<close> below) and
  is what makes the recursion well-founded.
\<close>

function scan_once :: "string \<Rightarrow> (pyval \<times> string) option"
  and JSONArray_loop :: "pyval list \<Rightarrow> string \<Rightarrow> (pyval \<times> string) option"
  and JSONObject_loop :: "(nat list \<times> pyval) list \<Rightarrow> string \<Rightarrow> (pyval \<times> string) option" where
  "scan_once s =
     (case s of
        [] \<Rightarrow> None
      | c # t \<Rightarrow>
          if c = QUOTE then
            (case scanstring t of None \<Rightarrow> None | Some (str, r) \<Rightarrow> Some (PStr str, r))
          else if c = CHR ''{'' then
            (case skip_ws t of
               [] \<Rightarrow> None
             | d # r \<Rightarrow>
                 if d = CHR ''}'' then Some (PDict [], r)
                 else if d = QUOTE then JSONObject_loop [] r
                 else None)
          else if c = CHR ''['' then
            (case skip_ws t of
               [] \<Rightarrow> None
             | d # r \<Rightarrow>
                 if d = CHR '']'' then Some (PList [], r)
                 else JSONArray_loop [] (d # r))
          else scan_atom s)"
| "JSONArray_loop vals s =
     (case scan_once s of
        None \<Rightarrow> None
      | Some (v, r) \<Rightarrow>
          if length r < length s then
            (case skip_ws r of
               [] \<Rightarrow> None
             | d # r' \<Rightarrow>
                 if d = CHR '']'' then Some (PList (vals @ [v]), r')
                 else if d = CHR '','' then JSONArray_loop (vals @ [v]) (skip_ws r')
                 else None)
          else None)"
| "JSONObject_loop pairs s =
     (case scanstring s of
        None \<Rightarrow> None
      | Some (key, r) \<Rightarrow>
          (case skip_ws r of
             [] \<Rightarrow> None
           | c # r1 \<Rightarrow>
               if c \<noteq> CHR '':'' \<or> \<not> length r1 < length s then None
               else
                 (case scan_once (skip_ws r1) of
                    None \<Rightarrow> None
                  | Some (v, r3) \<Rightarrow>
                      if length r3 < length (skip_ws r1) then
                        (case skip_ws r3 of
                           [] \<Rightarrow> None
                         | d # r4 \<Rightarrow>
                             if d = CHR ''}'' then Some (PDict (dict_set pairs key v), r4)
                             else if d = CHR '','' then
                               (case skip_ws r4 of
                                  [] \<Rightarrow> None
                                | q # r5 \<Rightarrow>
                                    if q = QUOTE then JSONObject_loop (dict_set pairs key v) r5
                                    else None)
                             else None)
                      else None)))"
  by pat_completeness auto
termination
proof (relation "measure (\<lambda>x. case x of
          Inl s \<Rightarrow> 2 * length s
        | Inr (Inl (vs, s)) \<Rightarrow> 2 * length s + 1
        | Inr (Inr (ps, s)) \<Rightarrow> 2 * length s + 1)")
  have ws: "length (skip_ws s) \<le> length s" for s
    by (simp add: skip_ws_def length_dropWhile_le)
  have ws_Cons: "length r < length s" if "skip_ws s = d # r" for s d r
    using ws [of s] that by simp
  show "wf (measure (\<lambda>x. case x of
          Inl s \<Rightarrow> 2 * length s
        | Inr (Inl (vs, s)) \<Rightarrow> 2 * length s + 1
        | Inr (Inr (ps, s)) \<Rightarrow> 2 * length s + 1))"
    by simp
  show "(Inr (Inr ([], r)), Inl s) \<in> measure (\<lambda>x. case x of
          Inl s \<Rightarrow> 2 * length s
        | Inr (Inl (vs, s)) \<Rightarrow> 2 * length s + 1
        | Inr (Inr (ps, s)) \<Rightarrow> 2 * length s + 1)"
    if "s = c # t" "skip_ws t = d # r" for s c t d r
    using that ws_Cons [of t d r] by simp
  show "(Inr (Inl ([], d # r)), Inl s) \<in> measure (\<lambda>x. case x of
          Inl s \<Rightarrow> 2 * length s
        | Inr (Inl (vs, s)) \<Rightarrow> 2 * length s + 1
        | Inr (Inr (ps, s)) \<Rightarrow> 2 * length s + 1)"
    if "s = c # t" "skip_ws t = d # r" for s c t d r
    using that ws [of t] by simp
  show "(Inl s, Inr (Inl (vs, s))) \<in> measure (\<lambda>x. case x of
          Inl s \<Rightarrow> 2 * length s
        | Inr (Inl (vs, s)) \<Rightarrow> 2 * length s + 1
        | Inr (Inr (ps, s)) \<Rightarrow> 2 * length s + 1)" for s :: string and vs :: "pyval list"
    by simp
  show "(Inr (Inl (vs @ [v], skip_ws r')), Inr (Inl (vs, s))) \<in> measure (\<lambda>x. case x of
          Inl s \<Rightarrow> 2 * length s
        | Inr (Inl (vs, s)) \<Rightarrow> 2 * length s + 1
        | Inr (Inr (ps, s)) \<Rightarrow> 2 * length s + 1)"
    if "length r < length s" "skip_ws r = d # r'" for vs :: "pyval list" and s v r d r'
    using that ws_Cons [of r d r'] ws [of r'] by simp
  show "(Inl (skip_ws r1), Inr (Inr (pairs, s))) \<in> measure (\<lambda>x. case x of
          Inl s \<Rightarrow> 2 * length s
        | Inr (Inl (vs, s)) \<Rightarrow> 2 * length s + 1
        | Inr (Inr (ps, s)) \<Rightarrow> 2 * length s + 1)"
    if "\<not> (c \<noteq> CHR '':'' \<or> \<not> length r1 < length s)"
    for pairs :: "(nat list \<times> pyval) list" and s c r1
    using that ws [of r1] by simp
  show "(Inr (Inr (dict_set pairs key v, r5)), Inr (Inr (pairs, s))) \<in> measure (\<lambda>x. case x of
          Inl s \<Rightarrow> 2 * length s
        | Inr (Inl (vs, s)) \<Rightarrow> 2 * length s + 1
        | Inr (Inr (ps, s)) \<Rightarrow> 2 * length s + 1)"
    if "\<not> (c \<noteq> CHR '':'' \<or> \<not> length r1 < length s)" "length r3 < length (skip_ws r1)"
       "skip_ws r3 = d # r4" "skip_ws r4 = q # r5"
    for pairs s key v c r1 r3 d r4 q r5
    using that ws [of r1] ws_Cons [of r3 d r4] ws_Cons [of r4 q r5] by simp
qed

declare scan_once.simps [simp del] JSONArray_loop.simps [simp del]
  JSONObject_loop.simps [simp del]

text \<open>
  \<^verbatim>\<open>json.loads(s)\<close> for a \<^verbatim>\<open>str\<close>: whitespace, one value, whitespace, and nothing else
  (\<^verbatim>\<open>Extra data\<close> otherwise).
\<close>

definition json_loads :: "string \<Rightarrow> exn + pyval" where
  "json_loads s =
     (case scan_once (skip_ws s) of
        None \<Rightarrow> Inl JSONDecodeError
      | Some (v, r) \<Rightarrow> if skip_ws r = [] then Inr v else Inl JSONDecodeError)"

text \<open>
  \<^verbatim>\<open>json.dumps(obj)\<close> with the default separators and \<^verbatim>\<open>ensure_ascii=True\<close>.
  \<open>hex4\<close> is the format \<^verbatim>\<open>{0:04x}\<close>.
\<close>

definition hex_char :: "nat \<Rightarrow> char" where
  "hex_char d = ''0123456789abcdef'' ! d"

definition hex4 :: "nat \<Rightarrow> string" where
  "hex4 n = [hex_char (n div 4096 mod 16), hex_char (n div 256 mod 16),
             hex_char (n div 16 mod 16), hex_char (n mod 16)]"

text \<open>
  \<^verbatim>\<open>encode_basestring_ascii\<close> on one code point: the short escapes, the printable
  ASCII characters as they are, \<^verbatim>\<open>\uXXXX\<close> for every other code point below 0x10000
  and a surrogate pair above.
\<close>

definition encode_char :: "nat \<Rightarrow> string" where
  "encode_char n =
     (if n = 0x22 then [BACKSLASH, QUOTE]
      else if n = 0x5C then [BACKSLASH, BACKSLASH]
      else if n = 0x0A then [BACKSLASH, CHR ''n'']
      else if n = 0x0D then [BACKSLASH, CHR ''r'']
      else if n = 0x09 then [BACKSLASH, CHR ''t'']
      else if n = 0x08 then [BACKSLASH, CHR ''b'']
      else if n = 0x0C then [BACKSLASH, CHR ''f'']
      else if 0x20 \<le> n \<and> n \<le> 0x7E then [char_of n]
      else if n < 0x10000 then BACKSLASH # CHR ''u'' # hex4 n
      else BACKSLASH # CHR ''u'' # hex4 (0xD800 + (n - 0x10000) div 1024 mod 1024)
           @ BACKSLASH # CHR ''u'' # hex4 (0xDC00 + (n - 0x10000) mod 1024))"

definition encode_basestring_ascii :: "nat list \<Rightarrow> string" where
  "encode_basestring_ascii s = QUOTE # concat (map encode_char s) @ [QUOTE]"

fun json_dumps :: "(string \<Rightarrow> string) \<Rightarrow> pyval \<Rightarrow> string" where
  "json_dumps float_repr PNone = ''null''"
| "json_dumps float_repr (PBool b) = (if b then ''true'' else ''false'')"
| "json_dumps float_repr (PInt i) = str_int i"
| "json_dumps float_repr (PFloat lexeme) = float_repr lexeme"
| "json_dumps float_repr (PStr s) = encode_basestring_ascii s"
| "json_dumps float_repr (PList vs) =
     ''['' @ join '', '' (map (json_dumps float_repr) vs) @ '']''"
| "json_dumps float_repr (PDict ps) =
     ''{'' @ join '', ''
        (map (\<lambda>p. encode_basestring_ascii (fst p) @ '': '' @ json_dumps float_repr (snd p)) ps)
      @ ''}''"

section \<open>The regular expressions of \_json.py\<close>

text \<open>
  \<^verbatim>\<open>json_pattern = r'\{(?:[^{}]|\{(?:[^{}]|\{[^{}]*\})*\})*\}'\<close>: an opening brace, then
  characters other than braces and brace groups nested at most two levels further, then
  the closing brace. From a given opening brace the pattern can match in one way only: a
  character that is not a brace can only be taken by \<^verbatim>\<open>[^{}]\<close>, an opening brace can only
  start a nested group, and a closing brace can only close the innermost open group. So
  the match is found by scanning with the number \<open>depth\<close> of open groups: it fails at a
  fourth opening brace and at the end of the text, and ends at the brace that closes the
  first group. \<open>match_braces depth s\<close> returns the text matched from \<open>s\<close> on.
\<close>

fun match_braces :: "nat \<Rightarrow> string \<Rightarrow> string option" where
  "match_braces depth [] = None"
| "match_braces depth (c # s) =
     (if c = CHR ''{'' then
        (if depth \<ge> 3 then None else map_option ((#) c) (match_braces (depth + 1) s))
      else if c = CHR ''}'' then
        (if depth \<le> 1 then Some [c] else map_option ((#) c) (match_braces (depth - 1) s))
      else map_option ((#) c) (match_braces depth s))"

text \<open>
  \<^verbatim>\<open>re.search(json_pattern, raw_str, re.DOTALL)\<close> and \<^verbatim>\<open>group(0)\<close>: the match at the
  leftmost position that has one.
\<close>

fun json_pattern_search :: "string \<Rightarrow> string option" where
  "json_pattern_search [] = None"
| "json_pattern_search (c # s) =
     (case (if c = CHR ''{'' then map_option ((#) c) (match_braces 1 s) else None) of
        Some m \<Rightarrow> Some m
      | None \<Rightarrow> json_pattern_search s)"

text \<open>
  \<^verbatim>\<open>re.sub(r'}\s*{', '},{', json_str)\<close>: a closing brace, whitespace and an opening brace
  become \<^verbatim>\<open>},{\<close>; the search goes on after the opening brace.
\<close>

function sub_brace_gap :: "string \<Rightarrow> string" where
  "sub_brace_gap [] = []"
| "sub_brace_gap (c # s) =
     (if c = CHR ''}'' then
        (case dropWhile isspace s of
           [] \<Rightarrow> c # sub_brace_gap s
         | d # r \<Rightarrow> if d = CHR ''{'' then ''},{'' @ sub_brace_gap r else c # sub_brace_gap s)
      else c # sub_brace_gap s)"
  by pat_completeness auto
termination
proof -
  have len: "length r < Suc (length s)" if "dropWhile isspace s = d # r" for s r and d :: char
  proof -
    have "length (dropWhile isspace s) \<le> length s" by (rule length_dropWhile_le)
    then show ?thesis using that by simp
  qed
  show ?thesis
    by (relation "measure length") (auto dest: len)
qed

text \<open>
  The group and the lookahead of \<^verbatim>\<open>(?<=: ")(.+?)(?="[,}])\<close> at the start of a text:
  the shortest run of one or more characters other than the line feed that is followed
  by a quote and then a comma or a closing brace. The result is the run and the text
  after it.
\<close>

definition quote_lookahead :: "string \<Rightarrow> bool" where
  "quote_lookahead s =
     (case s of
        a # b # _ \<Rightarrow> a = QUOTE \<and> (b = CHR '','' \<or> b = CHR ''}'')
      | _ \<Rightarrow> False)"

fun lazy_group :: "string \<Rightarrow> (string \<times> string) option" where
  "lazy_group [] = None"
| "lazy_group (c # s) =
     (if c = NEWLINE then None
      else if quote_lookahead s then Some ([c], s)
      else (case lazy_group s of
              None \<Rightarrow> None
            | Some (g, r) \<Rightarrow> Some (c # g, r)))"

text \<open>
  \<^verbatim>\<open>re.sub(r'(?<=: ")(.+?)(?="[,}])', lambda m: m.group(1).replace('"', '\\"'), s)\<close>.
  \<open>behind\<close> is the text already passed, last character first, for the lookbehind
  \<^verbatim>\<open>: "\<close>. After a match the search goes on at the end of the group.
\<close>

function sub_unescaped_quotes :: "string \<Rightarrow> string \<Rightarrow> string" where
  "sub_unescaped_quotes behind [] = []"
| "sub_unescaped_quotes behind (c # s) =
     (if prefix [QUOTE, CHR '' '', CHR '':''] behind then
        (case lazy_group (c # s) of
           None \<Rightarrow> c # sub_unescaped_quotes (c # behind) s
         | Some (g, r) \<Rightarrow>
             if length r < length (c # s)
             then replace [QUOTE] [BACKSLASH, QUOTE] g @ sub_unescaped_quotes (rev g @ behind) r
             else c # s)
      else c # sub_unescaped_quotes (c # behind) s)"
  by pat_completeness auto
termination
  by (relation "measure (\<lambda>(behind, s). length s)") auto

section \<open>JSON cleaning (llm/openai/\_json.py)\<close>

text \<open>\<^verbatim>\<open>fix_json_structure\<close>\<close>

definition fix_json_structure :: "string \<Rightarrow> string" where
  "fix_json_structure json_str = sub_unescaped_quotes [] (sub_brace_gap json_str)"

text \<open>
  \<^verbatim>\<open>extract_json_object\<close>: \<open>Inr None\<close> is the returned \<^verbatim>\<open>None\<close>. Each \<^verbatim>\<open>try\<close> catches
  \<^verbatim>\<open>json.JSONDecodeError\<close> only; any other exception leaves the function.
\<close>

definition extract_json_object :: "string \<Rightarrow> exn + pyval option" where
  "extract_json_object raw_str =
     (case json_pattern_search raw_str of
        None \<Rightarrow> Inr None
      | Some json_str \<Rightarrow>
          (case json_loads json_str of
             Inr json_obj \<Rightarrow> Inr (Some json_obj)
           | Inl e \<Rightarrow>
               if e = JSONDecodeError then
                 (case json_loads (fix_json_structure json_str) of
                    Inr json_obj \<Rightarrow> Inr (Some json_obj)
                  | Inl e' \<Rightarrow> if e' = JSONDecodeError then Inr None else Inl e')
               else Inl e))"

text \<open>The chain of \<^verbatim>\<open>replace\<close> calls and the \<^verbatim>\<open>strip\<close> at the head of \<^verbatim>\<open>clean_up_json\<close>.\<close>

definition clean_replacements :: "string \<Rightarrow> string" where
  "clean_replacements json_str =
     strip (replace [BACKSLASH] []
       (replace (''}]'' @ [QUOTE]) ''}]''
         (replace (QUOTE # ''[{'') ''[{''
           (replace [CR] []
             (replace [NEWLINE] []
               (replace [BACKSLASH, CHR ''n''] [] json_str))))))"

text \<open>The three tests that remove the Markdown frame.\<close>

definition remove_markdown_frame :: "string \<Rightarrow> string" where
  "remove_markdown_frame json_str =
     (let s1 = (if prefix ''```json'' json_str then drop (length ''```json'') json_str
                else json_str);
          s2 = (if prefix ''json'' s1 then drop (length ''json'') s1 else s1)
      in if suffix ''```'' s2 then take (length s2 - length ''```'') s2 else s2)"

text \<open>\<^verbatim>\<open>clean_up_json\<close>\<close>

definition clean_up_json :: "(string \<Rightarrow> string) \<Rightarrow> string \<Rightarrow> exn + string" where
  "clean_up_json float_repr json_str =
     (let json_str = remove_markdown_frame (clean_replacements json_str)
      in case json_loads json_str of
           Inr v \<Rightarrow> Inr json_str
         | Inl e \<Rightarrow>
             if e = JSONDecodeError then
               (case extract_json_object json_str of
                  Inl e' \<Rightarrow> Inl e'
                | Inr None \<Rightarrow> Inr json_str
                | Inr (Some json_obj) \<Rightarrow> Inr (json_dumps float_repr json_obj))
             else Inl e)"

section \<open>ClaudeChatLLM (llm/claude/claude\_chat\_llm.py)\<close>

text \<open>
  The keyword arguments of an invocation (the keys of \<^verbatim>\<open>LLMInput\<close> that the code
  reads or writes, and the key \<^verbatim>\<open>model\<close> that \<^verbatim>\<open>_invoke_json\<close> sets); \<open>None\<close> is a
  missing key.
\<close>

record LLMInput =
  kw_name :: "string option"
  kw_model :: "string option"
  kw_is_response_valid :: "(pyval \<Rightarrow> bool) option"
  kw_model_parameters :: "(string \<times> pyval) list option"
  kw_history :: "message list option"

record LLMOutput =
  r_output :: "string option"
  r_json :: pyval
  r_history :: "message list option"

text \<open>
  The fields \<^verbatim>\<open>output\<close>, \<^verbatim>\<open>json\<close> and \<^verbatim>\<open>history\<close> of \<^verbatim>\<open>LLMOutput\<close> carry the prefix \<open>r_\<close>.
\<close>

text \<open>The two fields of \<^verbatim>\<open>ClaudeConfiguration\<close> that \<^verbatim>\<open>_invoke_json\<close> reads.\<close>

record configuration =
  model_alt :: "string option"
  model_supports_json :: bool

definition MAX_GENERATION_RETRIES :: nat where
  "MAX_GENERATION_RETRIES = 3"

definition FAILED_TO_CREATE_JSON_ERROR :: string where
  "FAILED_TO_CREATE_JSON_ERROR = ''Failed to generate valid JSON output''"

text \<open>
  \<^verbatim>\<open>_execute_llm\<close>. \<open>args\<close> is the result of \<^verbatim>\<open>get_completion_llm_args\<close>, a function
  of utils.py that is not among the sources; \<open>create\<close> is \<^verbatim>\<open>client.messages.create\<close>.
\<close>

definition execute_llm ::
  "(message list \<Rightarrow> kwargs \<Rightarrow> exn + string list) \<Rightarrow> kwargs \<Rightarrow> string \<Rightarrow> LLMInput \<Rightarrow> exn + string" where
  "execute_llm create args input kwargs =
     (let history = (case kw_history kwargs of None \<Rightarrow> [] | Some h \<Rightarrow> h)
      in case extract_system_message None [] history of
           (system_message, filtered_history) \<Rightarrow>
             (let messages = filtered_history @ [[''role'' \<mapsto> ''user'', ''content'' \<mapsto> input]]
              in case create messages (add_system system_message args) of
                   Inl e \<Rightarrow> Inl e
                 | Inr content \<Rightarrow> first_content_text content))"

text \<open>
  Modelled from the spec: \<^verbatim>\<open>try_parse_json_object\<close> of llm/claude/utils.py is not among
  the sources. The spec has the raw text parsed directly as JSON, and the handler in
  \<^verbatim>\<open>_manual_json\<close> names the two exceptions a failure raises: \<^verbatim>\<open>JSONDecodeError\<close> for
  text that is not JSON and \<^verbatim>\<open>TypeError\<close> for JSON that is not an object. The functions
  below take the parser as a parameter; this instance serves the evaluations.
\<close>

definition try_parse_json_object :: "string \<Rightarrow> exn + pyval" where
  "try_parse_json_object input =
     (case json_loads input of
        Inl e \<Rightarrow> Inl e
      | Inr v \<Rightarrow> (case v of PDict ps \<Rightarrow> Inr v | _ \<Rightarrow> Inl TypeError))"

text \<open>
  \<^verbatim>\<open>self._invoke\<close> belongs to the base class \<^verbatim>\<open>BaseLLM\<close>, which is not among the sources:
  it is an oracle \<open>invoke\<close> whose answer may depend on the number of earlier invocations.
  The state threaded through the functions is the list of invocations made, each with
  its input and keyword arguments.
\<close>

type_synonym invoker = "nat \<Rightarrow> string \<Rightarrow> LLMInput \<Rightarrow> exn + LLMOutput"
type_synonym calls = "(string \<times> LLMInput) list"

text \<open>The value \<^verbatim>\<open>{"type": "json_object"}\<close> of the parameter \<^verbatim>\<open>response_format\<close>.\<close>

definition json_object_format :: pyval where
  "json_object_format = PDict [(ustr ''type'', PStr (ustr ''json_object''))]"

text \<open>\<^verbatim>\<open>_native_json\<close>: \<^verbatim>\<open>raw_output = result.output or ""\<close>; a parse error is not caught.\<close>

definition native_json ::
  "invoker \<Rightarrow> (string \<Rightarrow> exn + pyval) \<Rightarrow> string \<Rightarrow> LLMInput \<Rightarrow> calls \<Rightarrow> (exn + LLMOutput) \<times> calls" where
  "native_json invoke try_parse input kwargs cs =
     (let params = (case kw_model_parameters kwargs of None \<Rightarrow> [] | Some ps \<Rightarrow> ps);
          kwargs' = kwargs\<lparr>kw_model_parameters :=
                      Some (dict_set params ''response_format'' json_object_format)\<rparr>;
          cs' = cs @ [(input, kwargs')]
      in case invoke (length cs) input kwargs' of
           Inl e \<Rightarrow> (Inl e, cs')
         | Inr result \<Rightarrow>
             (let raw_output = (case r_output result of None \<Rightarrow> [] | Some s \<Rightarrow> s)
              in case try_parse raw_output of
                   Inl e \<Rightarrow> (Inl e, cs')
                 | Inr json_output \<Rightarrow>
                     (Inr \<lparr>r_output = Some raw_output, r_json = json_output,
                           r_history = r_history result\<rparr>, cs')))"

text \<open>
  \<^verbatim>\<open>_manual_json\<close>: \<^verbatim>\<open>history = result.history or []\<close>,
  \<^verbatim>\<open>output = clean_up_json(result.output or "")\<close>; on \<^verbatim>\<open>TypeError\<close> or \<^verbatim>\<open>JSONDecodeError\<close>
  the result has \<^verbatim>\<open>output=""\<close> and \<^verbatim>\<open>json=""\<close>, the empty string.
\<close>

definition manual_json ::
  "invoker \<Rightarrow> (string \<Rightarrow> exn + pyval) \<Rightarrow> (string \<Rightarrow> string) \<Rightarrow> string \<Rightarrow> LLMInput \<Rightarrow> calls
   \<Rightarrow> (exn + LLMOutput) \<times> calls" where
  "manual_json invoke try_parse float_repr input kwargs cs =
     (let cs' = cs @ [(input, kwargs)]
      in case invoke (length cs) input kwargs of
           Inl e \<Rightarrow> (Inl e, cs')
         | Inr result \<Rightarrow>
             (let history = (case r_history result of None \<Rightarrow> [] | Some h \<Rightarrow> h)
              in case clean_up_json float_repr (case r_output result of None \<Rightarrow> [] | Some s \<Rightarrow> s) of
                   Inl e \<Rightarrow> (Inl e, cs')
                 | Inr cleaned \<Rightarrow>
                     (case try_parse cleaned of
                        Inr json_output \<Rightarrow>
                          (Inr \<lparr>r_output = Some cleaned, r_json = json_output,
                                r_history = Some history\<rparr>, cs')
                      | Inl e \<Rightarrow>
                          if e = TypeError \<or> e = JSONDecodeError
                          then (Inr \<lparr>r_output = Some [], r_json = PStr [],
                                     r_history = Some history\<rparr>, cs')
                          else (Inl e, cs'))))"

text \<open>
  The inner function \<^verbatim>\<open>generate(attempt)\<close> of \<^verbatim>\<open>_invoke_json\<close>. It is only called with a
  number. \<^verbatim>\<open>name = kwargs.get("name") or "unknown"\<close>.
\<close>

definition generate ::
  "configuration \<Rightarrow> invoker \<Rightarrow> (string \<Rightarrow> exn + pyval) \<Rightarrow> (string \<Rightarrow> string) \<Rightarrow> string \<Rightarrow> LLMInput
   \<Rightarrow> nat \<Rightarrow> calls \<Rightarrow> (exn + LLMOutput) \<times> calls" where
  "generate cfg invoke try_parse float_repr input kwargs attempt cs =
     (let name = (if truthy (kw_name kwargs) then the (kw_name kwargs) else ''unknown'');
          call_name = name @ ''@'' @ str_nat attempt;
          modified_kwargs =
            (if attempt > 0 \<and> truthy (model_alt cfg)
             then kwargs\<lparr>kw_model := model_alt cfg\<rparr> else kwargs);
          modified_kwargs = modified_kwargs\<lparr>kw_name := Some call_name\<rparr>
      in if model_supports_json cfg
         then native_json invoke try_parse input modified_kwargs cs
         else manual_json invoke try_parse float_repr input modified_kwargs cs)"

text \<open>
  \<^verbatim>\<open>is_valid\<close>, with \<^verbatim>\<open>is_response_valid = kwargs.get("is_response_valid") or
  (lambda _x: True)\<close>.
\<close>

definition is_valid :: "LLMInput \<Rightarrow> pyval \<Rightarrow> bool" where
  "is_valid kwargs x =
     (x \<noteq> PNone \<and> (case kw_is_response_valid kwargs of None \<Rightarrow> True | Some p \<Rightarrow> p x))"

text \<open>
  The \<^verbatim>\<open>while\<close> loop of \<^verbatim>\<open>_invoke_json\<close> and the statements after it; \<open>retry\<close> is the
  loop counter.
\<close>

function invoke_json_loop ::
  "configuration \<Rightarrow> invoker \<Rightarrow> (string \<Rightarrow> exn + pyval) \<Rightarrow> (string \<Rightarrow> string) \<Rightarrow> string \<Rightarrow> LLMInput
   \<Rightarrow> LLMOutput \<Rightarrow> nat \<Rightarrow> calls \<Rightarrow> (exn + LLMOutput) \<times> calls" where
  "invoke_json_loop cfg invoke try_parse float_repr input kwargs result retry cs =
     (if \<not> is_valid kwargs (r_json result) \<and> retry < MAX_GENERATION_RETRIES then
        (case generate cfg invoke try_parse float_repr input kwargs retry cs of
           (Inl e, cs') \<Rightarrow> (Inl e, cs')
         | (Inr result', cs') \<Rightarrow>
             invoke_json_loop cfg invoke try_parse float_repr input kwargs result' (retry + 1) cs')
      else if is_valid kwargs (r_json result) then (Inr result, cs)
      else (Inl (RuntimeError FAILED_TO_CREATE_JSON_ERROR), cs))"
  by pat_completeness auto
termination
  by (relation "measure (\<lambda>(cfg, invoke, try_parse, float_repr, input, kwargs, result, retry, cs).
        MAX_GENERATION_RETRIES - retry)") auto

declare invoke_json_loop.simps [simp del]

text \<open>\<^verbatim>\<open>_invoke_json\<close>\<close>

definition invoke_json ::
  "configuration \<Rightarrow> invoker \<Rightarrow> (string \<Rightarrow> exn + pyval) \<Rightarrow> (string \<Rightarrow> string) \<Rightarrow> string \<Rightarrow> LLMInput
   \<Rightarrow> calls \<Rightarrow> (exn + LLMOutput) \<times> calls" where
  "invoke_json cfg invoke try_parse float_repr input kwargs cs =
     (case generate cfg invoke try_parse float_repr input kwargs 0 cs of
        (Inl e, cs') \<Rightarrow> (Inl e, cs')
      | (Inr result, cs') \<Rightarrow>
          invoke_json_loop cfg invoke try_parse float_repr input kwargs result 1 cs')"

section \<open>Concrete environments used by the evaluations\<close>

definition always_rate_limited :: client where
  "always_rate_limited =
     \<lparr>messages_stream = (\<lambda>n r. ([], Some RateLimitError)),
      messages_create = (\<lambda>n r. Inl RateLimitError)\<rparr>"

definition streams_hello :: client where
  "streams_hello =
     \<lparr>messages_stream = (\<lambda>n r. ([''Hel'', ''lo''], None)),
      messages_create = (\<lambda>n r. Inr [''Hello''])\<rparr>"

definition world0 :: world where
  "world0 = \<lparr>requests = [], tokens = [], attempts = 0, sleeps = [], reported = []\<rparr>"

text \<open>An instance with the default \<^verbatim>\<open>retry_error_types\<close> and the same client for both modes.\<close>

definition default_llm :: "string option \<Rightarrow> int \<Rightarrow> client \<Rightarrow> llm" where
  "default_llm m n c =
     \<lparr>model = m, max_retries = n, retry_error_types = CLAUDE_RETRY_ERROR_TYPES,
      sync_client = Some c, async_client = Some c\<rparr>"

text \<open>
  \<open>sent_since w w' Q\<close>: the requests of \<open>w'\<close> are those of \<open>w\<close> followed by requests that
  all satisfy \<open>Q\<close>.
\<close>

definition sent_since :: "world \<Rightarrow> world \<Rightarrow> (request \<Rightarrow> bool) \<Rightarrow> bool" where
  "sent_since w w' Q = (\<exists>new. requests w' = requests w @ new \<and> (\<forall>r \<in> set new. Q r))"

text \<open>Keyword arguments with every key missing, and an invoker with a fixed answer.\<close>

definition no_kwargs :: LLMInput where
  "no_kwargs = \<lparr>kw_name = None, kw_model = None, kw_is_response_valid = None,
                 kw_model_parameters = None, kw_history = None\<rparr>"

definition answers :: "string \<Rightarrow> invoker" where
  "answers s = (\<lambda>n input kwargs. Inr \<lparr>r_output = Some s, r_json = PNone, r_history = None\<rparr>)"


text \<open>
  \<open>consumed s r\<close>: \<open>r\<close> is what is left of \<open>s\<close> after a non-empty prefix that does not
  end with a backquote (no JSON value ends with one).
\<close>

definition consumed :: "string \<Rightarrow> string \<Rightarrow> bool" where
  "consumed s r = (\<exists>p. s = p @ r \<and> p \<noteq> [] \<and> last p \<noteq> CHR 0x60)"

section \<open>Properties of the message normalisation\<close>

lemma extract_system_message_snd:
  "snd (extract_system_message s f ms) = f @ filter (\<lambda>m. m ''role'' \<noteq> Some ''system'') ms"
  by (induction ms arbitrary: s f) auto

lemma extract_system_message_fst:
  "fst (extract_system_message s f ms) =
     (case filter (\<lambda>m. m ''role'' = Some ''system'') ms of
        [] \<Rightarrow> s
      | x # xs \<Rightarrow> last (x # xs) ''content'')"
proof (induction ms arbitrary: s f)
  case Nil
  then show ?case by simp
next
  case (Cons m ms)
  show ?case
  proof (cases "m ''role'' = Some ''system''")
    case True
    then show ?thesis using Cons.IH [of "m ''content''" f]
      by (simp split: list.splits)
  next
    case False
    then show ?thesis using Cons.IH [of s "f @ [m]"] by simp
  qed
qed

text \<open>
  Claim C4. For every sequence of turns, the normalisation loop (the same in
  \<^verbatim>\<open>_execute_llm\<close>, \<^verbatim>\<open>generate\<close> and \<^verbatim>\<open>agenerate\<close>) returns the non-system turns
  in their original order (the list filtered by role), no returned turn has the system
  role, and the extracted system instruction is the \<^verbatim>\<open>content\<close> of the last system turn
  when there is one and \<^verbatim>\<open>None\<close> otherwise.
\<close>

theorem normalizer_order_and_last_system:
  "extract_system_message None [] ms = (sys, rest) \<Longrightarrow>
     rest = filter (\<lambda>m. m ''role'' \<noteq> Some ''system'') ms
   \<and> (\<forall>m \<in> set rest. m ''role'' \<noteq> Some ''system'')
   \<and> sys = (if \<exists>m \<in> set ms. m ''role'' = Some ''system''
            then last (filter (\<lambda>m. m ''role'' = Some ''system'') ms) ''content''
            else None)"
proof -
  assume a: "extract_system_message None [] ms = (sys, rest)"
  have r: "rest = filter (\<lambda>m. m ''role'' \<noteq> Some ''system'') ms"
    using a extract_system_message_snd [of None "[]" ms] by simp
  have s: "sys = (case filter (\<lambda>m. m ''role'' = Some ''system'') ms of
        [] \<Rightarrow> None | x # xs \<Rightarrow> last (x # xs) ''content'')"
    using a extract_system_message_fst [of None "[]" ms] by simp
  have e: "(\<exists>m \<in> set ms. m ''role'' = Some ''system'') \<longleftrightarrow> filter (\<lambda>m. m ''role'' = Some ''system'') ms \<noteq> []"
    by (simp add: filter_empty_conv)
  show ?thesis using r s e by (auto split: list.splits)
qed

theorem normalizer_order_and_last_system_witness:
  "extract_system_message None []
       [[''role'' \<mapsto> ''system'', ''content'' \<mapsto> ''A''],
        [''role'' \<mapsto> ''user'', ''content'' \<mapsto> ''hi''],
        [''role'' \<mapsto> ''system'', ''content'' \<mapsto> ''B''],
        [''role'' \<mapsto> ''assistant'', ''content'' \<mapsto> ''yo'']]
   = (Some ''B'', [[''role'' \<mapsto> ''user'', ''content'' \<mapsto> ''hi''],
        [''role'' \<mapsto> ''assistant'', ''content'' \<mapsto> ''yo'']])"
  using normalizer_order_and_last_system [of
       "[[''role'' \<mapsto> ''system'', ''content'' \<mapsto> ''A''],
        [''role'' \<mapsto> ''user'', ''content'' \<mapsto> ''hi''],
        [''role'' \<mapsto> ''system'', ''content'' \<mapsto> ''B''],
        [''role'' \<mapsto> ''assistant'', ''content'' \<mapsto> ''yo'']]"
       "fst (extract_system_message None []
       [[''role'' \<mapsto> ''system'', ''content'' \<mapsto> ''A''],
        [''role'' \<mapsto> ''user'', ''content'' \<mapsto> ''hi''],
        [''role'' \<mapsto> ''system'', ''content'' \<mapsto> ''B''],
        [''role'' \<mapsto> ''assistant'', ''content'' \<mapsto> ''yo'']])"
       "snd (extract_system_message None []
       [[''role'' \<mapsto> ''system'', ''content'' \<mapsto> ''A''],
        [''role'' \<mapsto> ''user'', ''content'' \<mapsto> ''hi''],
        [''role'' \<mapsto> ''system'', ''content'' \<mapsto> ''B''],
        [''role'' \<mapsto> ''assistant'', ''content'' \<mapsto> ''yo'']])"]
  by simp

section \<open>Properties of the retry wrapper\<close>

lemma Retrying_not_retried:
  "body (w\<lparr>attempts := attempts w + 1\<rparr>) = (Inl e, w') \<Longrightarrow> \<not> retry e \<Longrightarrow>
   Retrying n r retry body k w = (Inl e, w')"
  by (subst Retrying.simps) simp

text \<open>
  With \<^verbatim>\<open>reraise=True\<close> the loop never raises \<^verbatim>\<open>RetryError\<close> of its own: whatever it
  raises, an attempt has raised.
\<close>

lemma Retrying_reraise:
  assumes "\<And>v e. fst (body v) \<noteq> Inl (RetryError e)"
  shows "fst (Retrying n True retry body k w) \<noteq> Inl (RetryError e)"
  using assms
proof (induction n True retry body k w rule: Retrying.induct)
  case (1 n retry body k w)
  obtain res w' where b: "body (w\<lparr>attempts := attempts w + 1\<rparr>) = (res, w')"
    by (cases "body (w\<lparr>attempts := attempts w + 1\<rparr>)")
  have nr: "res \<noteq> Inl (RetryError e)"
    using "1.prems" [of "w\<lparr>attempts := attempts w + 1\<rparr>" e] b by simp
  show ?case
  proof (cases res)
    case (Inr v)
    then show ?thesis using b by (subst Retrying.simps) simp
  next
    case (Inl e')
    show ?thesis
    proof (cases "retry e' \<and> \<not> n \<le> k")
      case False
      then show ?thesis using b Inl nr by (subst Retrying.simps) auto
    next
      case True
      have "fst (Retrying n True retry body (k + 1) (w'\<lparr>sleeps := sleeps w' @ [k]\<rparr>))
              \<noteq> Inl (RetryError e)"
        using "1.hyps" [OF b [symmetric] Inl _ _ "1.prems"] True by simp
      then show ?thesis using b Inl True by (subst Retrying.simps) simp
    qed
  qed
qed

text \<open>
  Claim C5. When the configured model name is missing (\<^verbatim>\<open>None\<close> or empty) and
  \<^verbatim>\<open>ValueError\<close> is not among the retry error types (as with the default
  \<^verbatim>\<open>CLAUDE_RETRY_ERROR_TYPES\<close>), \<^verbatim>\<open>ChatClaude.generate\<close> and \<^verbatim>\<open>ChatClaude.agenerate\<close>
  raise the model-required \<^verbatim>\<open>ValueError\<close> after exactly one attempt: no request is
  sent, no wait is taken and nothing is reported.
\<close>

theorem missing_model_fails_once:
  "\<not> truthy (model self) \<Longrightarrow> \<not> retry_error_types self (ValueError MODEL_REQUIRED_MSG) \<Longrightarrow>
     ChatClaude_generate self messages streaming callbacks kw w
       = (Inl (ValueError MODEL_REQUIRED_MSG), w\<lparr>attempts := attempts w + 1\<rparr>)
   \<and> ChatClaude_agenerate self messages streaming callbacks kw w
       = (Inl (ValueError MODEL_REQUIRED_MSG), w\<lparr>attempts := attempts w + 1\<rparr>)"
  by (simp add: ChatClaude_generate_def ChatClaude_agenerate_def ChatClaude_generate_impl_def
      ChatClaude_agenerate_impl_def Retrying_not_retried on_retry_error_def Let_def
      split: prod.splits)

theorem missing_model_fails_once_witness:
  "\<not> truthy (model (default_llm None 10 streams_hello))
   \<and> \<not> retry_error_types (default_llm None 10 streams_hello) (ValueError MODEL_REQUIRED_MSG)
   \<and> ChatClaude_generate (default_llm None 10 streams_hello) (MsgList []) True None Map.empty world0
       = (Inl (ValueError ''model is required''), world0\<lparr>attempts := 1\<rparr>)
   \<and> ChatClaude_agenerate (default_llm (Some []) 10 streams_hello) (MsgList []) True None Map.empty world0
       = (Inl (ValueError ''model is required''), world0\<lparr>attempts := 1\<rparr>)"
  using missing_model_fails_once [of "default_llm None 10 streams_hello" "MsgList []" True None Map.empty world0]
    missing_model_fails_once [of "default_llm (Some []) 10 streams_hello" "MsgList []" True None Map.empty world0]
  by (simp add: default_llm_def truthy_def CLAUDE_RETRY_ERROR_TYPES_def MODEL_REQUIRED_MSG_def world0_def)

text \<open>
  Claim C1. With \<^verbatim>\<open>max_retries = 2\<close> and a client that answers every request with
  \<^verbatim>\<open>RateLimitError\<close>, all four entry points raise \<^verbatim>\<open>RateLimitError\<close> after the second
  attempt: the retry loop is built with \<^verbatim>\<open>reraise=True\<close>, so the \<^verbatim>\<open>RetryError\<close> handler
  that returns the empty string is never entered.
\<close>

theorem exhaustion_reraises_last_error:
  "fst (ChatClaude_generate (default_llm (Some ''claude-3'') 2 always_rate_limited)
          (MsgList [[''role'' \<mapsto> ''user'', ''content'' \<mapsto> ''hi'']]) True None Map.empty world0)
     = Inl RateLimitError
   \<and> fst (ChatClaude_agenerate (default_llm (Some ''claude-3'') 2 always_rate_limited)
          (MsgList [[''role'' \<mapsto> ''user'', ''content'' \<mapsto> ''hi'']]) False None Map.empty world0)
     = Inl RateLimitError
   \<and> fst (Claude_generate (default_llm (Some ''claude-3'') 2 always_rate_limited)
          (MsgList [[''role'' \<mapsto> ''user'', ''content'' \<mapsto> ''hi'']]) True None Map.empty world0)
     = Inl RateLimitError
   \<and> fst (Claude_agenerate (default_llm (Some ''claude-3'') 2 always_rate_limited)
          (MsgList [[''role'' \<mapsto> ''user'', ''content'' \<mapsto> ''hi'']]) False None Map.empty world0)
     = Inl RateLimitError
   \<and> attempts (snd (ChatClaude_generate (default_llm (Some ''claude-3'') 2 always_rate_limited)
          (MsgList [[''role'' \<mapsto> ''user'', ''content'' \<mapsto> ''hi'']]) True None Map.empty world0)) = 2"
  by (simp add: ChatClaude_generate_def ChatClaude_agenerate_def Claude_generate_def Claude_agenerate_def
      ChatClaude_generate_impl_def ChatClaude_agenerate_impl_def
      Claude_generate_impl_def Claude_agenerate_impl_def normalize_messages_def add_system_def
      send_request_def default_llm_def always_rate_limited_def world0_def truthy_def
      CLAUDE_RETRY_ERROR_TYPES_def on_retry_error_def Let_def Retrying.simps)

text \<open>
  Claim C9. A streaming call with one registered callback and a stream of two deltas
  raises \<^verbatim>\<open>NameError\<close> at the first delta: no callback receives a token and no text
  is returned.
\<close>

theorem streaming_callback_raises_NameError:
  "ChatClaude_generate (default_llm (Some ''claude-3'') 10 streams_hello)
          (MsgList [[''role'' \<mapsto> ''user'', ''content'' \<mapsto> ''hi'']]) True (Some [0]) Map.empty world0
     = (Inl (NameError ''delta''),
        world0\<lparr>requests := [\<lparr>req_model = ''claude-3'',
                    req_messages = [[''role'' \<mapsto> ''user'', ''content'' \<mapsto> ''hi'']],
                    req_stream = None,
                    req_kwargs = [''extra_headers'' \<mapsto> extra_headers]\<rparr>],
               attempts := 1\<rparr>)
   \<and> fst (Claude_generate (default_llm (Some ''claude-3'') 10 streams_hello)
          (MsgList [[''role'' \<mapsto> ''user'', ''content'' \<mapsto> ''hi'']]) True (Some [0]) Map.empty world0)
     = Inl (NameError ''delta'')
   \<and> tokens (snd (Claude_generate (default_llm (Some ''claude-3'') 10 streams_hello)
          (MsgList [[''role'' \<mapsto> ''user'', ''content'' \<mapsto> ''hi'']]) True (Some [0]) Map.empty world0))
     = []"
  by (simp add: ChatClaude_generate_def ChatClaude_agenerate_def Claude_generate_def Claude_agenerate_def
      ChatClaude_generate_impl_def ChatClaude_agenerate_impl_def
      Claude_generate_impl_def Claude_agenerate_impl_def normalize_messages_def add_system_def
      send_request_def default_llm_def streams_hello_def world0_def truthy_def delta_def
      CLAUDE_RETRY_ERROR_TYPES_def on_retry_error_def Let_def Retrying.simps)

section \<open>The requests that are sent\<close>

lemma sent_since_refl: "sent_since w w Q"
  by (simp add: sent_since_def)

lemma sent_since_trans: "sent_since w w1 Q \<Longrightarrow> sent_since w1 w2 Q \<Longrightarrow> sent_since w w2 Q"
  by (auto simp: sent_since_def)

lemma notify_callbacks_requests: "requests (snd (notify_callbacks cbs w)) = requests w"
  by (induction cbs arbitrary: w) (auto simp: delta_def)

lemma text_stream_loop_requests:
  "requests (snd (text_stream_loop callbacks full ds err w)) = requests w"
proof (induction ds arbitrary: full w)
  case Nil
  then show ?case by (simp split: option.splits)
next
  case (Cons d ds)
  show ?case
  proof (cases callbacks)
    case None
    then show ?thesis using Cons.IH by simp
  next
    case (Some cbs)
    show ?thesis
    proof (cases "cbs = []")
      case True
      then show ?thesis using Some Cons.IH by simp
    next
      case False
      obtain r w' where n: "notify_callbacks cbs w = (r, w')" by (cases "notify_callbacks cbs w")
      have "requests w' = requests w" using notify_callbacks_requests [of cbs w] n by simp
      then show ?thesis using Some False n Cons.IH [of "full @ d" w']
        by (cases r) (simp_all add: Let_def)
    qed
  qed
qed

lemma send_request_sent:
  "sent_since w (snd (send_request c m msgs streaming callbacks kw w))
     (\<lambda>r. req_messages r = msgs \<and> req_kwargs r = kw)"
proof (cases streaming)
  case True
  obtain ds err where s: "messages_stream c (length (requests w))
      \<lparr>req_model = m, req_messages = msgs, req_stream = None, req_kwargs = kw\<rparr> = (ds, err)"
    by (cases "messages_stream c (length (requests w))
      \<lparr>req_model = m, req_messages = msgs, req_stream = None, req_kwargs = kw\<rparr>")
  show ?thesis using True s
    by (simp add: send_request_def sent_since_def Let_def text_stream_loop_requests)
next
  case False
  then show ?thesis
    by (simp add: send_request_def sent_since_def Let_def split: sum.splits)
qed

lemma Retrying_sent:
  assumes "\<And>w. sent_since w (snd (body w)) Q"
  shows "sent_since w (snd (Retrying n r retry body k w)) Q"
  using assms
proof (induction n r retry body k w rule: Retrying.induct)
  case (1 n r retry body k w)
  obtain res w' where b: "body (w\<lparr>attempts := attempts w + 1\<rparr>) = (res, w')"
    by (cases "body (w\<lparr>attempts := attempts w + 1\<rparr>)")
  have s0: "sent_since (w\<lparr>attempts := attempts w + 1\<rparr>) (snd (body (w\<lparr>attempts := attempts w + 1\<rparr>))) Q"
    by (rule "1.prems")
  have s1: "sent_since w w' Q"
    using s0 unfolding b sent_since_def by simp
  show ?case
  proof (cases res)
    case (Inr v)
    then show ?thesis using b s1 by (subst Retrying.simps) simp
  next
    case (Inl e)
    show ?thesis
    proof (cases "retry e \<and> \<not> n \<le> k")
      case False
      then show ?thesis using b s1 Inl by (subst Retrying.simps) auto
    next
      case True
      have "sent_since (w'\<lparr>sleeps := sleeps w' @ [k]\<rparr>)
              (snd (Retrying n r retry body (k + 1) (w'\<lparr>sleeps := sleeps w' @ [k]\<rparr>))) Q"
        using "1.IH" [OF b [symmetric] Inl _ _ "1.prems"] True by simp
      then have "sent_since w (snd (Retrying n r retry body (k + 1) (w'\<lparr>sleeps := sleeps w' @ [k]\<rparr>))) Q"
        using s1 by (auto simp: sent_since_def)
      then show ?thesis using b Inl True by (subst Retrying.simps) simp
    qed
  qed
qed

lemma on_retry_error_requests: "requests (snd (on_retry_error msg r)) = requests (snd r)"
  by (auto simp: on_retry_error_def split: prod.splits sum.splits exn.splits)

text \<open>
  Claim C10. When \<^verbatim>\<open>messages\<close> is a plain string, every request that \<^verbatim>\<open>generate\<close> or
  \<^verbatim>\<open>agenerate\<close> (of either class) sends carries an empty message list, and its
  \<^verbatim>\<open>system\<close> argument is whatever the caller's keyword arguments held: none is added.
\<close>

theorem string_messages_are_discarded:
  "sent_since w (snd (ChatClaude_generate self (MsgStr s) streaming callbacks kw w))
     (\<lambda>r. req_messages r = [] \<and> req_kwargs r ''system'' = kw ''system'')
   \<and> sent_since w (snd (ChatClaude_agenerate self (MsgStr s) streaming callbacks kw w))
     (\<lambda>r. req_messages r = [] \<and> req_kwargs r ''system'' = kw ''system'')
   \<and> sent_since w (snd (Claude_generate self (MsgStr s) streaming callbacks kw w))
     (\<lambda>r. req_messages r = [] \<and> req_kwargs r ''system'' = kw ''system'')
   \<and> sent_since w (snd (Claude_agenerate self (MsgStr s) streaming callbacks kw w))
     (\<lambda>r. req_messages r = [] \<and> req_kwargs r ''system'' = kw ''system'')"
proof -
  let ?Q = "\<lambda>r. req_messages r = [] \<and> req_kwargs r ''system'' = kw ''system''"
  have body: "sent_since v (snd (send_request c m [] streaming callbacks kw' v)) ?Q"
    if "kw' ''system'' = kw ''system''" for v c m kw'
    using send_request_sent [of v c m "[]" streaming callbacks kw'] that
    by (auto simp: sent_since_def)
  have lift: "sent_since w (snd (on_retry_error msg (Retrying n True retry b 1 w))) ?Q"
    if "\<And>v. sent_since v (snd (b v)) ?Q" for msg n retry b
    using Retrying_sent [of b ?Q w n True retry 1, OF that]
    by (simp add: sent_since_def on_retry_error_requests)
  have 1: "sent_since v (snd (ChatClaude_generate_impl self [] streaming callbacks
              (kw(''extra_headers'' \<mapsto> extra_headers)) v)) ?Q" for v
    using body [of "kw(''extra_headers'' \<mapsto> extra_headers)" v]
    by (simp add: ChatClaude_generate_impl_def sent_since_refl split: option.splits)
  have 2: "sent_since v (snd (ChatClaude_agenerate_impl self [] streaming callbacks
              (kw(''extra_headers'' \<mapsto> extra_headers)) v)) ?Q" for v
    using body [of "kw(''extra_headers'' \<mapsto> extra_headers)" v]
    by (simp add: ChatClaude_agenerate_impl_def sent_since_refl split: option.splits)
  have 3: "sent_since v (snd (Claude_generate_impl self [] streaming callbacks kw v)) ?Q" for v
    using body [of kw v] by (simp add: Claude_generate_impl_def sent_since_refl split: option.splits)
  have 4: "sent_since v (snd (Claude_agenerate_impl self [] streaming callbacks kw v)) ?Q" for v
    using body [of kw v] by (simp add: Claude_agenerate_impl_def sent_since_refl split: option.splits)
  show ?thesis
    using lift [OF 1] lift [OF 2] lift [OF 3] lift [OF 4]
    by (simp add: ChatClaude_generate_def ChatClaude_agenerate_def Claude_generate_def
        Claude_agenerate_def normalize_messages_def add_system_def truthy_def Let_def)
qed

theorem string_messages_are_discarded_witness:
  "requests (snd (ChatClaude_generate (default_llm (Some ''claude-3'') 10 streams_hello)
       (MsgStr ''What is 2 + 2?'') False None Map.empty world0))
     = [\<lparr>req_model = ''claude-3'', req_messages = [], req_stream = Some False,
         req_kwargs = [''extra_headers'' \<mapsto> extra_headers]\<rparr>]
   \<and> sent_since world0 (snd (ChatClaude_generate (default_llm (Some ''claude-3'') 10 streams_hello)
       (MsgStr ''What is 2 + 2?'') False None Map.empty world0))
       (\<lambda>r. req_messages r = [] \<and> req_kwargs r ''system'' = None)"
  using string_messages_are_discarded [of world0 "default_llm (Some ''claude-3'') 10 streams_hello"
      "''What is 2 + 2?''" False None Map.empty]
  by (simp add: ChatClaude_generate_def ChatClaude_generate_impl_def normalize_messages_def
      add_system_def send_request_def default_llm_def streams_hello_def world0_def truthy_def
      first_content_text_def on_retry_error_def Let_def Retrying.simps)

section \<open>Properties of the JSON recovery parser\<close>





text \<open>
  Claim C7, as stated, fails: on two objects without a separating comma
  \<^verbatim>\<open>extract_json_object\<close> returns the first object alone.
\<close>

theorem two_objects_counterexample:
  \<open>extract_json_object ''{"a":1}{"b":2}'' = Inr (Some (PDict [(ustr ''a'', PInt 1)]))\<close>
  by code_simp

text \<open>
  Claim C7, amended. On \<^verbatim>\<open>{"a":1}{"b":2}\<close> the pattern matches the first balanced
  object, which parses, so the repair step is not run and \<^verbatim>\<open>clean_up_json\<close> returns the
  serialisation of the first object; the repair step applied to the whole input inserts
  the comma, and the result is not valid JSON.
\<close>

theorem two_objects_first_only:
  \<open>json_pattern_search ''{"a":1}{"b":2}'' = Some ''{"a":1}''
   \<and> clean_up_json float_repr ''{"a":1}{"b":2}'' = Inr ''{"a": 1}''
   \<and> fix_json_structure ''{"a":1}{"b":2}'' = ''{"a":1},{"b":2}''
   \<and> json_loads ''{"a":1},{"b":2}'' = Inl JSONDecodeError\<close>
  by code_simp


section \<open>What the JSON decoder consumes\<close>

lemma consumed_app: "consumed t r \<Longrightarrow> consumed (a @ t) r"
proof -
  assume "consumed t r"
  then obtain p where p: "t = p @ r" "p \<noteq> []" "last p \<noteq> CHR 0x60"
    by (auto simp: consumed_def)
  have "a @ t = (a @ p) @ r" "a @ p \<noteq> []" "last (a @ p) \<noteq> CHR 0x60"
    using p by simp_all
  then show ?thesis unfolding consumed_def by blast
qed

lemma consumed_Cons: "consumed t r \<Longrightarrow> consumed (c # t) r"
  using consumed_app [of t r "[c]"] by simp

lemma consumed_drop: "consumed (drop n t) r \<Longrightarrow> consumed t r"
  using consumed_app [of "drop n t" r "take n t"] by simp

lemma consumed_one: "c \<noteq> CHR 0x60 \<Longrightarrow> consumed (c # r) r"
  unfolding consumed_def by (intro exI [of _ "[c]"]) simp

lemma consumed_skip_ws: "consumed (skip_ws t) r \<Longrightarrow> consumed t r"
  using consumed_app [of "dropWhile json_ws t" r "takeWhile json_ws t"]
  by (simp add: skip_ws_def)

lemma consumed_skip_ws_Cons: "skip_ws t = d # r \<Longrightarrow> d \<noteq> CHR 0x60 \<Longrightarrow> consumed t r"
  using consumed_skip_ws [of t r] consumed_one [of d r] by simp

lemma consumed_trans: "consumed s r \<Longrightarrow> consumed r r' \<Longrightarrow> consumed s r'"
proof -
  assume "consumed s r" "consumed r r'"
  then obtain p q where "s = p @ r" "p \<noteq> []" "r = q @ r'" "q \<noteq> []" "last q \<noteq> CHR 0x60"
    by (auto simp: consumed_def)
  then have "s = (p @ q) @ r'" "p @ q \<noteq> []" "last (p @ q) \<noteq> CHR 0x60" by simp_all
  then show ?thesis unfolding consumed_def by blast
qed

lemma consumed_length: "consumed s r \<Longrightarrow> length r < length s"
  by (auto simp: consumed_def)

lemma consumed_word:
  "prefix w s \<Longrightarrow> w \<noteq> [] \<Longrightarrow> last w \<noteq> CHR 0x60 \<Longrightarrow> n = length w \<Longrightarrow> consumed s (drop n s)"
  unfolding consumed_def by (intro exI [of _ w]) (auto simp: prefix_def)

lemma scanstring_consumed: "scanstring s = Some (cs, r) \<Longrightarrow> consumed s r"
proof (induction s arbitrary: cs r rule: scanstring.induct)
  case 1
  then show ?case by simp
next
  case (2 c s)
  show ?case
  proof (cases "c = QUOTE")
    case True
    then show ?thesis using "2.prems" consumed_one [of c s] by simp
  next
    case nq: False
    show ?thesis
    proof (cases "c = BACKSLASH")
      case bs: True
      then obtain e t where s: "s = e # t"
        using "2.prems" nq by (cases s) auto
      show ?thesis
      proof (cases "e = CHR ''u''")
        case u: True
        then obtain uni where uni: "decode_uXXXX t = Some uni"
          using "2.prems" nq bs s by (cases "decode_uXXXX t") auto
        show ?thesis
        proof (cases "0xD800 \<le> uni \<and> uni \<le> 0xDBFF \<and> prefix [BACKSLASH, CHR ''u''] (drop 4 t)")
          case hi: True
          then obtain uni2 where uni2: "decode_uXXXX (drop 6 t) = Some uni2"
            using "2.prems" nq bs s u uni by (cases "decode_uXXXX (drop 6 t)") auto
          show ?thesis
          proof (cases "0xDC00 \<le> uni2 \<and> uni2 \<le> 0xDFFF")
            case lo: True
            obtain cs' where r: "scanstring (drop 10 t) = Some (cs', r)"
              using "2.prems" nq bs s u uni hi uni2 lo
              by (cases "scanstring (drop 10 t)") auto
            have "consumed (drop 10 t) r"
              using "2.IH"(1) [OF nq bs s u uni hi uni2 lo r] .
            then show ?thesis using s consumed_drop [of 10 t r] consumed_Cons by blast
          next
            case lo: False
            obtain cs' where r: "scanstring (drop 4 t) = Some (cs', r)"
              using "2.prems" nq bs s u uni hi uni2 lo
              by (cases "scanstring (drop 4 t)") auto
            have "consumed (drop 4 t) r"
              using "2.IH"(2) [OF nq bs s u uni hi uni2 lo r] .
            then show ?thesis using s consumed_drop [of 4 t r] consumed_Cons by blast
          qed
        next
          case hi: False
          obtain cs' where r: "scanstring (drop 4 t) = Some (cs', r)"
            using "2.prems" nq bs s u uni hi
            by (cases "scanstring (drop 4 t)") auto
          have "consumed (drop 4 t) r"
            using "2.IH"(3) [OF nq bs s u uni hi r] .
          then show ?thesis using s consumed_drop [of 4 t r] consumed_Cons by blast
        qed
      next
        case u: False
        then obtain ch where ch: "backslash_escape e = Some ch"
          using "2.prems" nq bs s by (cases "backslash_escape e") auto
        obtain cs' where r: "scanstring t = Some (cs', r)"
          using "2.prems" nq bs s u ch by (cases "scanstring t") auto
        have "consumed t r" using "2.IH"(4) [OF nq bs s u ch r] .
        then show ?thesis using s consumed_Cons by blast
      qed
    next
      case bs: False
      have ctl: "\<not> (of_char c :: nat) < 0x20"
        using "2.prems" nq bs by (auto split: if_splits)
      obtain cs' where r: "scanstring s = Some (cs', r)"
        using "2.prems" nq bs ctl by (cases "scanstring s") auto
      have "consumed s r" using "2.IH"(5) [OF nq bs ctl r] .
      then show ?thesis using consumed_Cons by blast
    qed
  qed
qed

lemma is_digit_not_backquote: "is_digit c \<Longrightarrow> c \<noteq> CHR 0x60"
  by (auto simp: is_digit_def)

lemma last_digits: "is_digit d \<Longrightarrow> is_digit (last (d # takeWhile is_digit u))"
  using set_takeWhileD [of "last (takeWhile is_digit u)" is_digit u]
  by (cases "takeWhile is_digit u = []") auto

lemma number_int_prefix:
  "number_int s = Some i \<Longrightarrow> prefix i s \<and> i \<noteq> [] \<and> is_digit (last i)"
proof -
  assume a: "number_int s = Some i"
  let ?sign = "if prefix ''-'' s then ''-'' else []"
  have sign: "s = ?sign @ drop (length ?sign) s" by (auto simp: prefix_def)
  obtain d u where t: "drop (length ?sign) s = d # u"
    using a by (cases "drop (length ?sign) s") (auto simp: number_int_def Let_def)
  have s: "s = ?sign @ d # u" using sign t by simp
  show ?thesis
  proof (cases "d = CHR ''0''")
    case True
    then have "i = ?sign @ ''0''" using a t by (simp add: number_int_def Let_def)
    then show ?thesis using s True by (auto simp: prefix_def is_digit_def)
  next
    case False
    then have d: "is_digit d" and i: "i = ?sign @ d # takeWhile is_digit u"
      using a t by (auto simp: number_int_def Let_def split: if_splits)
    have "prefix (d # takeWhile is_digit u) (d # u)" by (simp add: takeWhile_is_prefix)
    then have "prefix i s" using i s by (metis same_prefix_prefix)
    moreover have "is_digit (last i)" using i last_digits [OF d, of u] by simp
    ultimately show ?thesis using i by simp
  qed
qed

lemma number_frac_prefix:
  "prefix (number_frac s) s \<and> (number_frac s \<noteq> [] \<longrightarrow> is_digit (last (number_frac s)))"
proof (cases s)
  case Nil
  then show ?thesis by (simp add: number_frac_def)
next
  case c: (Cons c t)
  show ?thesis
  proof (cases t)
    case Nil
    then show ?thesis using c by (simp add: number_frac_def)
  next
    case (Cons d u)
    show ?thesis
    proof (cases "c = CHR ''.'' \<and> is_digit d")
      case True
      then have f: "number_frac s = c # d # takeWhile is_digit u"
        using c Cons by (simp add: number_frac_def)
      have "prefix (c # d # takeWhile is_digit u) (c # d # u)" by (simp add: takeWhile_is_prefix)
      moreover have "is_digit (last (c # d # takeWhile is_digit u))"
        using last_digits [of d u] True by simp
      ultimately show ?thesis using f c Cons by simp
    next
      case False
      then have "number_frac s = []" using c Cons by (auto simp: number_frac_def)
      then show ?thesis by simp
    qed
  qed
qed

lemma exp_shape:
  "prefix (case u of [] \<Rightarrow> []
           | d # v \<Rightarrow> if is_digit d then e # sign @ d # takeWhile is_digit v else [])
          (e # sign @ u)
   \<and> ((case u of [] \<Rightarrow> []
        | d # v \<Rightarrow> if is_digit d then e # sign @ d # takeWhile is_digit v else []) \<noteq> []
       \<longrightarrow> is_digit (last (case u of [] \<Rightarrow> []
        | d # v \<Rightarrow> if is_digit d then e # sign @ d # takeWhile is_digit v else [])))"
proof (cases u)
  case Nil
  then show ?thesis by simp
next
  case (Cons d v)
  show ?thesis
  proof (cases "is_digit d")
    case False
    then show ?thesis using Cons by simp
  next
    case True
    have "prefix (d # takeWhile is_digit v) (d # v)" by (simp add: takeWhile_is_prefix)
    then have "prefix (e # sign @ d # takeWhile is_digit v) (e # sign @ d # v)" by simp
    moreover have "is_digit (last (e # sign @ d # takeWhile is_digit v))"
      using last_digits [OF True, of v] by simp
    ultimately show ?thesis using Cons True by simp
  qed
qed

lemma number_exp_prefix:
  "prefix (number_exp s) s \<and> (number_exp s \<noteq> [] \<longrightarrow> is_digit (last (number_exp s)))"
proof (cases s)
  case Nil
  then show ?thesis by (simp add: number_exp_def)
next
  case (Cons e t)
  obtain sign where sign: "sign = (if prefix ''-'' t then ''-'' else if prefix ''+'' t then ''+'' else [])"
    by blast
  have t: "sign @ drop (length sign) t = t" unfolding sign by (auto simp: prefix_def)
  have ne: "number_exp s =
      (if e = CHR ''e'' \<or> e = CHR ''E'' then
         (case drop (length sign) t of [] \<Rightarrow> []
          | d # v \<Rightarrow> if is_digit d then e # sign @ d # takeWhile is_digit v else [])
       else [])"
    unfolding number_exp_def Let_def Cons list.case sign by (rule refl)
  show ?thesis
  proof (cases "e = CHR ''e'' \<or> e = CHR ''E''")
    case False
    then have "number_exp s = []" unfolding ne by simp
    then show ?thesis by simp
  next
    case True
    have ne': "number_exp s = (case drop (length sign) t of [] \<Rightarrow> []
          | d # v \<Rightarrow> if is_digit d then e # sign @ d # takeWhile is_digit v else [])"
      unfolding ne using True by simp
    have "prefix (number_exp s) (e # sign @ drop (length sign) t)
       \<and> (number_exp s \<noteq> [] \<longrightarrow> is_digit (last (number_exp s)))"
      unfolding ne' by (rule exp_shape)
    then show ?thesis unfolding t Cons .
  qed
qed

lemma prefix_drop: "prefix p s \<Longrightarrow> s = p @ drop (length p) s"
  by (auto simp: prefix_def)

lemma match_number_consumed: "match_number s = Some (v, r) \<Longrightarrow> consumed s r"
proof -
  assume a: "match_number s = Some (v, r)"
  then obtain i where i: "number_int s = Some i"
    by (cases "number_int s") (auto simp: match_number_def)
  define s1 where "s1 = drop (length i) s"
  define f where "f = number_frac s1"
  define s2 where "s2 = drop (length f) s1"
  define e where "e = number_exp s2"
  have r: "r = drop (length e) s2"
    using a i unfolding match_number_def Let_def s1_def f_def s2_def e_def
    by (auto split: if_splits)
  have pi: "prefix i s" "i \<noteq> []" "is_digit (last i)" using number_int_prefix [OF i] by simp_all
  have pf: "prefix f s1" "f \<noteq> [] \<longrightarrow> is_digit (last f)"
    using number_frac_prefix [of s1] by (simp_all add: f_def)
  have pe: "prefix e s2" "e \<noteq> [] \<longrightarrow> is_digit (last e)"
    using number_exp_prefix [of s2] by (simp_all add: e_def)
  have "s = i @ s1" using prefix_drop [OF pi(1)] by (simp add: s1_def)
  moreover have "s1 = f @ s2" using prefix_drop [OF pf(1)] by (simp add: s2_def)
  moreover have "s2 = e @ r" using prefix_drop [OF pe(1)] r by simp
  ultimately have s: "s = (i @ f @ e) @ r" by simp
  have "is_digit (last (i @ f @ e))" using pi(3) pf(2) pe(2) by (simp add: last_append)
  then have "last (i @ f @ e) \<noteq> CHR 0x60" by (rule is_digit_not_backquote)
  moreover have "i @ f @ e \<noteq> []" using pi(2) by simp
  ultimately show ?thesis using s unfolding consumed_def by blast
qed

lemma scan_atom_consumed: "scan_atom s = Some (v, r) \<Longrightarrow> consumed s r"
proof -
  assume a: "scan_atom s = Some (v, r)"
  consider "prefix ''null'' s" "r = drop 4 s" | "prefix ''true'' s" "r = drop 4 s"
    | "prefix ''false'' s" "r = drop 5 s" | "match_number s = Some (v, r)"
    | "prefix ''NaN'' s" "r = drop 3 s" | "prefix ''Infinity'' s" "r = drop 8 s"
    | "prefix ''-Infinity'' s" "r = drop 9 s"
    using a by (auto simp: scan_atom_def split: if_splits option.splits)
  then show ?thesis
  proof cases
    case 1 then show ?thesis using consumed_word [of "''null''" s 4] by simp
  next
    case 2 then show ?thesis using consumed_word [of "''true''" s 4] by simp
  next
    case 3 then show ?thesis using consumed_word [of "''false''" s 5] by simp
  next
    case 4 then show ?thesis by (rule match_number_consumed)
  next
    case 5 then show ?thesis using consumed_word [of "''NaN''" s 3] by simp
  next
    case 6 then show ?thesis using consumed_word [of "''Infinity''" s 8] by simp
  next
    case 7 then show ?thesis using consumed_word [of "''-Infinity''" s 9] by simp
  qed
qed

lemma backquote_neq:
  "CHR ''}'' \<noteq> CHR 0x60" "CHR '']'' \<noteq> CHR 0x60" "CHR '','' \<noteq> CHR 0x60"
  "CHR '':'' \<noteq> CHR 0x60" "QUOTE \<noteq> CHR 0x60"
  by simp_all

lemma parser_consumed:
  "\<forall>v r. scan_once s = Some (v, r) \<longrightarrow> consumed s r"
  "\<forall>v r. JSONArray_loop vals sa = Some (v, r) \<longrightarrow> consumed sa r"
  "\<forall>v r. JSONObject_loop pairs so = Some (v, r) \<longrightarrow> consumed so r"
proof (induction s and vals sa and pairs so rule: scan_once_JSONArray_loop_JSONObject_loop.induct)
  case (1 s)
  show ?case
  proof (intro allI impI)
    fix v r
    assume a: "scan_once s = Some (v, r)"
    obtain c t where s: "s = c # t"
      using a by (cases s) (simp_all add: scan_once.simps)
    show "consumed s r"
    proof (cases "c = QUOTE")
      case True
      then obtain str where "scanstring t = Some (str, r)"
        using a s by (cases "scanstring t") (auto simp: scan_once.simps)
      then have "consumed t r" by (rule scanstring_consumed)
      then show ?thesis using s consumed_Cons by simp
    next
      case nq: False
      show ?thesis
      proof (cases "c = CHR ''{''")
        case ob: True
        obtain d r0 where ws: "skip_ws t = d # r0"
          using a s nq ob by (cases "skip_ws t") (simp_all add: scan_once.simps)
        show ?thesis
        proof (cases "d = CHR ''}''")
          case True
          then have "r = r0" using a s nq ob ws by (simp add: scan_once.simps)
          then have "consumed t r" using consumed_skip_ws_Cons [OF ws] True by simp
          then show ?thesis using s consumed_Cons by simp
        next
          case ncb: False
          then have dq: "d = QUOTE" and l: "JSONObject_loop [] r0 = Some (v, r)"
            using a s nq ob ws by (auto simp: scan_once.simps split: if_splits)
          have "consumed r0 r" using "1.IH"(1) [OF s nq ob ws ncb dq] l by blast
          moreover have "consumed t r0" using consumed_skip_ws_Cons [OF ws] dq by simp
          ultimately have "consumed t r" by (rule consumed_trans [rotated])
          then show ?thesis using s consumed_Cons by simp
        qed
      next
        case nob: False
        show ?thesis
        proof (cases "c = CHR ''[''")
          case oa: True
          obtain d r0 where ws: "skip_ws t = d # r0"
            using a s nq nob oa by (cases "skip_ws t") (simp_all add: scan_once.simps)
          show ?thesis
          proof (cases "d = CHR '']''")
            case True
            then have "r = r0" using a s nq nob oa ws by (simp add: scan_once.simps)
            then have "consumed t r" using consumed_skip_ws_Cons [OF ws] True by simp
            then show ?thesis using s consumed_Cons by simp
          next
            case nca: False
            then have l: "JSONArray_loop [] (d # r0) = Some (v, r)"
              using a s nq nob oa ws by (simp add: scan_once.simps)
            have "consumed (d # r0) r" using "1.IH"(2) [OF s nq nob oa ws nca] l by blast
            then have "consumed (skip_ws t) r" using ws by simp
            then have "consumed t r" by (rule consumed_skip_ws)
            then show ?thesis using s consumed_Cons by simp
          qed
        next
          case False
          then have "scan_atom s = Some (v, r)"
            using a s nq nob by (simp add: scan_once.simps)
          then show ?thesis by (rule scan_atom_consumed)
        qed
      qed
    qed
  qed
next
  case (2 vals s)
  show ?case
  proof (intro allI impI)
    fix v r
    assume a: "JSONArray_loop vals s = Some (v, r)"
    obtain v0 r0 where so: "scan_once s = Some (v0, r0)"
      using a by (cases "scan_once s") (auto simp: JSONArray_loop.simps)
    have c0: "consumed s r0" using "2.IH"(1) so by blast
    then have len: "length r0 < length s" by (rule consumed_length)
    obtain d r' where ws: "skip_ws r0 = d # r'"
      using a so len by (cases "skip_ws r0") (simp_all add: JSONArray_loop.simps)
    show "consumed s r"
    proof (cases "d = CHR '']''")
      case True
      then have "r = r'" using a so len ws by (simp add: JSONArray_loop.simps)
      then have "consumed r0 r" using consumed_skip_ws_Cons [OF ws] True by simp
      then show ?thesis using c0 consumed_trans by blast
    next
      case nca: False
      then have dc: "d = CHR '',''"
        and l: "JSONArray_loop (vals @ [v0]) (skip_ws r') = Some (v, r)"
        using a so len ws by (auto simp: JSONArray_loop.simps split: if_splits)
      have "consumed (skip_ws r') r"
        using "2.IH"(2) [OF so refl len ws nca dc] l by blast
      then have "consumed r' r" by (rule consumed_skip_ws)
      moreover have "consumed r0 r'" using consumed_skip_ws_Cons [OF ws] dc by simp
      ultimately show ?thesis using c0 consumed_trans by blast
    qed
  qed
next
  case (3 pairs s)
  show ?case
  proof (intro allI impI)
    fix v r
    assume a: "JSONObject_loop pairs s = Some (v, r)"
    obtain key r0 where k: "scanstring s = Some (key, r0)"
      using a by (cases "scanstring s") (auto simp: JSONObject_loop.simps)
    have c0: "consumed s r0" using k by (rule scanstring_consumed)
    obtain c r1 where ws: "skip_ws r0 = c # r1"
      using a k by (cases "skip_ws r0") (simp_all add: JSONObject_loop.simps)
    have g: "\<not> (c \<noteq> CHR '':'' \<or> \<not> length r1 < length s)"
      using a k ws by (auto simp: JSONObject_loop.simps split: if_splits)
    then have c1: "consumed r0 r1" using consumed_skip_ws_Cons [OF ws] by simp
    obtain v0 r3 where so: "scan_once (skip_ws r1) = Some (v0, r3)"
      using a k ws g by (cases "scan_once (skip_ws r1)") (auto simp: JSONObject_loop.simps)
    have "consumed (skip_ws r1) r3" using "3.IH"(1) [OF k refl ws g] so by blast
    then have len: "length r3 < length (skip_ws r1)" and c3: "consumed r1 r3"
      using consumed_length consumed_skip_ws by blast+
    obtain d r4 where ws3: "skip_ws r3 = d # r4"
      using a k ws g so len by (cases "skip_ws r3") (auto simp: JSONObject_loop.simps)
    have c13: "consumed s r3" using c0 c1 c3 consumed_trans by blast
    show "consumed s r"
    proof (cases "d = CHR ''}''")
      case True
      then have "r = r4" using a k ws g so len ws3 by (auto simp: JSONObject_loop.simps)
      then have "consumed r3 r" using consumed_skip_ws_Cons [OF ws3] True by simp
      then show ?thesis using c13 consumed_trans by blast
    next
      case ncb: False
      then have dc: "d = CHR '',''"
        using a k ws g so len ws3 by (auto simp: JSONObject_loop.simps split: if_splits)
      obtain q r5 where ws4: "skip_ws r4 = q # r5"
        using a k ws g so len ws3 ncb dc
        by (cases "skip_ws r4") (auto simp: JSONObject_loop.simps)
      have qq: "q = QUOTE" and l: "JSONObject_loop (dict_set pairs key v0) r5 = Some (v, r)"
        using a k ws g so len ws3 ncb dc ws4
        by (auto simp: JSONObject_loop.simps split: if_splits)
      have "consumed r5 r"
        using "3.IH"(2) [OF k refl ws g so refl len ws3 ncb dc ws4 qq] l by blast
      moreover have "consumed r4 r5" using consumed_skip_ws_Cons [OF ws4] qq by simp
      moreover have "consumed r3 r4" using consumed_skip_ws_Cons [OF ws3] dc by simp
      ultimately show ?thesis using c13 consumed_trans by blast
    qed
  qed
qed

text \<open>
  The two length tests in \<open>JSONArray_loop\<close> and \<open>JSONObject_loop\<close> never fail: a value
  and a key take at least one character.
\<close>

lemma scan_once_consumes: "scan_once s = Some (v, r) \<Longrightarrow> length r < length s"
  using parser_consumed(1) consumed_length by blast

lemma JSONObject_loop_guard:
  "scanstring s = Some (key, r0) \<Longrightarrow> skip_ws r0 = c # r1 \<Longrightarrow> length r1 < length s"
proof -
  assume a: "scanstring s = Some (key, r0)" and b: "skip_ws r0 = c # r1"
  have "length r0 < length s" using scanstring_consumed [OF a] by (rule consumed_length)
  moreover have "length (skip_ws r0) \<le> length r0" by (simp add: skip_ws_def length_dropWhile_le)
  ultimately show ?thesis using b by simp
qed


section \<open>Valid JSON that the cleanup leaves alone\<close>










section \<open>Properties of the structured-output enforcer\<close>









lemma str_nat_small: "str_nat 0 = ''0''" "str_nat (Suc 0) = ''1''" "str_nat 2 = ''2''"
  by (simp_all add: str_nat.simps digit_char_def)




lemma clean_prose: "clean_up_json id ''no json here at all'' = Inr ''no json here at all''"
  by code_simp

lemma parse_prose: "try_parse_json_object ''no json here at all'' = Inl JSONDecodeError"
  by code_simp


text \<open>
  Claim C2. In manual mode, with no predicate (or one that accepts every value), an
  answer without JSON makes \<^verbatim>\<open>_manual_json\<close> return \<^verbatim>\<open>json=""\<close>; the empty string is
  not \<^verbatim>\<open>None\<close>, so \<^verbatim>\<open>is_valid\<close> accepts it and \<^verbatim>\<open>_invoke_json\<close> returns, after one
  attempt, a result whose \<^verbatim>\<open>json\<close> field stands for a failed parse.
\<close>

theorem failed_parse_is_returned:
  "invoke_json \<lparr>model_alt = None, model_supports_json = False\<rparr>
      (answers ''no json here at all'') try_parse_json_object id ''q'' no_kwargs []
     = (Inr \<lparr>r_output = Some [], r_json = PStr [], r_history = Some []\<rparr>,
        [(''q'', no_kwargs\<lparr>kw_name := Some ''unknown@0''\<rparr>)])
   \<and> invoke_json \<lparr>model_alt = None, model_supports_json = False\<rparr>
      (answers ''no json here at all'') try_parse_json_object id ''q''
      (no_kwargs\<lparr>kw_is_response_valid := Some (\<lambda>x. True)\<rparr>) []
     = (Inr \<lparr>r_output = Some [], r_json = PStr [], r_history = Some []\<rparr>,
        [(''q'', no_kwargs\<lparr>kw_is_response_valid := Some (\<lambda>x. True), kw_name := Some ''unknown@0''\<rparr>)])
   \<and> try_parse_json_object ''no json here at all'' = Inl JSONDecodeError"
  by (simp add: invoke_json_def invoke_json_loop.simps generate_def manual_json_def answers_def
      no_kwargs_def is_valid_def truthy_def Let_def str_nat_small clean_prose parse_prose)

text \<open>
  What the final test of \<^verbatim>\<open>_invoke_json\<close> does guarantee: the \<^verbatim>\<open>json\<close> field of a returned
  result is not \<^verbatim>\<open>None\<close> and the predicate, if any, accepts it.
\<close>

lemma invoke_json_loop_valid:
  "invoke_json_loop cfg invoke try_parse float_repr input kwargs result retry cs = (Inr r, cs')
   \<Longrightarrow> is_valid kwargs (r_json r)"
proof (induction cfg invoke try_parse float_repr input kwargs result retry cs
    rule: invoke_json_loop.induct)
  case (1 cfg invoke try_parse float_repr input kwargs result retry cs)
  show ?case
  proof (cases "\<not> is_valid kwargs (r_json result) \<and> retry < MAX_GENERATION_RETRIES")
    case True
    obtain g cs1 where g: "generate cfg invoke try_parse float_repr input kwargs retry cs = (g, cs1)"
      by (cases "generate cfg invoke try_parse float_repr input kwargs retry cs")
    show ?thesis
    proof (cases g)
      case (Inl e)
      then show ?thesis using "1.prems" True g by (subst (asm) invoke_json_loop.simps) simp
    next
      case (Inr result')
      have "invoke_json_loop cfg invoke try_parse float_repr input kwargs result' (retry + 1) cs1
              = (Inr r, cs')"
        using "1.prems" True g Inr by (subst (asm) invoke_json_loop.simps) simp
      then show ?thesis using "1.IH" [OF True g [symmetric] Inr] by simp
    qed
  next
    case False
    then show ?thesis using "1.prems"
      by (subst (asm) invoke_json_loop.simps) (auto split: if_splits)
  qed
qed

lemma invoke_json_returns_valid:
  "invoke_json cfg invoke try_parse float_repr input kwargs cs = (Inr r, cs')
   \<Longrightarrow> r_json r \<noteq> PNone
       \<and> (case kw_is_response_valid kwargs of None \<Rightarrow> True | Some p \<Rightarrow> p (r_json r))"
  using invoke_json_loop_valid
  by (fastforce simp: invoke_json_def is_valid_def split: prod.splits sum.splits)

end
